theory Spec2Isabelle
  imports Complex_Main "HOL-Library.Sublist"
begin

section \<open>Reporting aggregation of the nightclub dashboard (Reports.tsx)\<close>

text \<open>
  The development embeds the aggregation code of \<^verbatim>\<open>src/components/Reports.tsx\<close>:
  \<^verbatim>\<open>loadTransactions\<close> (the two equality filters), \<^verbatim>\<open>calculateStats\<close>,
  \<^verbatim>\<open>loadDailyReports\<close> and \<^verbatim>\<open>exportToCSV\<close>.

  Modelling decisions, each visible in the definitions below:
  \<^item> A JavaScript \<^verbatim>\<open>number\<close> that holds money or a quantity is an exact rational
    (\<^typ>\<open>rat\<close>): IEEE rounding is not modelled. The one division of the code returns a
    value that can be \<^verbatim>\<open>NaN\<close> or an infinity, so that a zero divisor shows. The
    \<^verbatim>\<open>isRefund\<close> column is a \<^verbatim>\<open>number\<close> compared with 0 and 1 and is an \<^typ>\<open>int\<close>.
  \<^item> A plain object used as a dictionary is the list of its own properties in creation
    order, on top of the members it inherits from \<^verbatim>\<open>Object.prototype\<close>: a read
    \<^verbatim>\<open>ob[k]\<close> finds an own property, an inherited member, or nothing. \<^verbatim>\<open>Object.entries\<close>
    enumerates the own properties, array-index keys first, in ascending numeric order, and
    the other keys in creation order, as ECMAScript's OrdinaryOwnPropertyKeys prescribes.
  \<^item> \<^verbatim>\<open>Array.prototype.sort\<close> is stable when the comparator is consistent; with the
    comparator \<^verbatim>\<open>(a, b) => b.f - a.f\<close> on numbers it is a stable sort descending by \<^verbatim>\<open>f\<close>.
    The order it leaves when the comparator is not consistent is the engine's, a parameter.
  \<^item> The database client, \<^verbatim>\<open>JSON.parse\<close>, \<^verbatim>\<open>Date.toISOString\<close>, the time zone of the host
    and the stringification of non-string values belong to the runtime, not to this
    repository: they are parameters of the functions that call them. A thrown exception
    is a value \<open>Inl e\<close>. The two database queries are taken to answer: a query that is
    rejected is not modelled.
  \<^item> A \<^verbatim>\<open>Date\<close> is its time value, the milliseconds since the epoch in UTC, an
    \<^typ>\<open>int\<close>; a date of the range, \<^verbatim>\<open>YYYY-MM-DD\<close>, is given by its day number, and
    \<^verbatim>\<open>new Date\<close> of it is midnight UTC of that day.
\<close>

subsection \<open>Data model\<close>

text \<open>\<^verbatim>\<open>interface Transaction\<close> (Reports.tsx, lines 25-38).\<close>

record Transaction =
  id_tx :: string
  memberName :: string
  membershipType :: string
  items :: string
  originalAmount :: rat
  discountAmount :: rat
  finalAmount :: rat
  paymentMethod :: string
  transactionDate :: string
  cashierName :: string
  isRefund :: int
  refundReason :: "string option"

text \<open>An item line of the JSON payload in \<^verbatim>\<open>Transaction.items\<close>: the cart item
  \<^verbatim>\<open>{ name, price, quantity }\<close> the billing screen builds.\<close>

record CartItem =
  name :: string
  price :: rat
  quantity :: rat

text \<open>The entries of \<^verbatim>\<open>DailyReport.topItems\<close> and \<^verbatim>\<open>DailyReport.paymentMethods\<close>.\<close>

record TopItem =
  item :: string
  quantity :: rat
  revenue :: rat

record PaymentEntry =
  "method" :: string
  amount :: rat
  count :: nat

text \<open>\<^verbatim>\<open>interface DailyReport\<close>. \<open>topItems\<close> is \<open>None\<close> when an item payload of the day holds a
  line that is not of the shape above: the code then adds \<^verbatim>\<open>undefined\<close> and \<^verbatim>\<open>NaN\<close>, which
  the numbers of this model do not have.\<close>

record DailyReport =
  date :: string
  totalSales :: rat
  totalRefunds :: rat
  netRevenue :: rat
  transactionCount :: nat
  memberCheckIns :: nat
  topItems :: "TopItem list option"
  paymentMethods :: "PaymentEntry list"

text \<open>The result of a division of two numbers: \<^verbatim>\<open>0 / 0\<close> is \<^verbatim>\<open>NaN\<close>, and another number
  divided by 0 is an infinity.\<close>

datatype jsnum = Finite rat | NaN | PosInfinity | NegInfinity

definition js_div :: "rat \<Rightarrow> rat \<Rightarrow> jsnum" where
  "js_div a b =
     (if b = 0
      then (if a = 0 then NaN else if 0 < a then PosInfinity else NegInfinity)
      else Finite (a / b))"

text \<open>The \<^verbatim>\<open>stats\<close> state that \<^verbatim>\<open>calculateStats\<close> sets.\<close>

record Stats =
  totalSales :: rat
  totalRefunds :: rat
  netRevenue :: rat
  totalTransactions :: nat
  averageTransaction :: jsnum
  topMembershipType :: string
  topPaymentMethod :: string

datatype error = SyntaxError | TypeError

subsection \<open>Plain objects as dictionaries\<close>

text \<open>The own properties of an object, in creation order.\<close>

type_synonym 'v obj = "(string \<times> 'v) list"

text \<open>The properties of \<^verbatim>\<open>Object.prototype\<close> (ECMAScript, with Annex B), which every object
  literal inherits. All are functions but \<^verbatim>\<open>__proto__\<close>, an accessor whose getter returns
  \<^verbatim>\<open>Object.prototype\<close> itself and whose setter ignores a value that is not an object.\<close>

definition inherited :: "string \<Rightarrow> bool" where
  "inherited k =
     (k \<in> set [''constructor'', ''__defineGetter__'', ''__defineSetter__'', ''hasOwnProperty'',
               ''__lookupGetter__'', ''__lookupSetter__'', ''isPrototypeOf'',
               ''propertyIsEnumerable'', ''toString'', ''valueOf'', ''__proto__'',
               ''toLocaleString''])"

text \<open>What \<^verbatim>\<open>ob[k]\<close> reads: an own property, a member of the prototype (a function or an
  object, truthy), or nothing. A number that the code has written on a member of the
  prototype is \<^verbatim>\<open>NaN\<close> and falsy, like \<^verbatim>\<open>undefined\<close>, and is read as nothing.\<close>

datatype 'v lookup = Own 'v | Inherited | Undefined

definition obj_get :: "'v obj \<Rightarrow> string \<Rightarrow> 'v lookup" where
  "obj_get ob k =
     (case map_of ob k of
        Some v \<Rightarrow> Own v
      | None \<Rightarrow> (if inherited k then Inherited else Undefined))"

text \<open>An own property is written: an existing one keeps its place, a new one is created
  last.\<close>

fun own_set :: "'v obj \<Rightarrow> string \<Rightarrow> 'v \<Rightarrow> 'v obj" where
  "own_set [] k v = [(k, v)]"
| "own_set ((k', v') # ps) k v =
     (if k' = k then (k, v) # ps else (k', v') # own_set ps k v)"

text \<open>\<^verbatim>\<open>ob[k] = v\<close>. Under the key \<^verbatim>\<open>__proto__\<close> the assignment calls the inherited setter;
  the one such assignment of this file stores a string, which the setter ignores.\<close>

definition obj_set :: "'v obj \<Rightarrow> string \<Rightarrow> 'v \<Rightarrow> 'v obj" where
  "obj_set ob k v = (if k = ''__proto__'' then ob else own_set ob k v)"

definition is_digit :: "char \<Rightarrow> bool" where
  "is_digit c = (48 \<le> (of_char c :: int) \<and> (of_char c :: int) \<le> 57)"

definition index_value :: "string \<Rightarrow> int" where
  "index_value s = foldl (\<lambda>n c. 10 * n + ((of_char c :: int) - 48)) 0 s"

text \<open>An array index is the canonical decimal numeral of an integer below \<open>2^32 - 1\<close>.\<close>

definition is_array_index :: "string \<Rightarrow> bool" where
  "is_array_index s =
     (s \<noteq> [] \<and> list_all is_digit s \<and> (s = ''0'' \<or> hd s \<noteq> CHR ''0'')
      \<and> index_value s < 4294967295)"

text \<open>The order in which the own keys of an object are enumerated, given the keys in
  creation order.\<close>

definition enum_order :: "('a \<Rightarrow> string) \<Rightarrow> 'a list \<Rightarrow> 'a list" where
  "enum_order key xs =
     sort_key (\<lambda>x. index_value (key x)) (filter (\<lambda>x. is_array_index (key x)) xs)
     @ filter (\<lambda>x. \<not> is_array_index (key x)) xs"

definition Object_entries :: "'v obj \<Rightarrow> (string \<times> 'v) list" where
  "Object_entries ob = enum_order fst ob"

text \<open>\<^verbatim>\<open>xs.sort((a, b) => f(b) - f(a))\<close> for numbers \<open>f\<close>.\<close>

definition sort_desc :: "('a \<Rightarrow> rat) \<Rightarrow> 'a list \<Rightarrow> 'a list" where
  "sort_desc f xs = sort_key (\<lambda>x. - f x) xs"

subsection \<open>calculateStats (lines 247-280)\<close>

text \<open>\<^verbatim>\<open>xs.reduce((sum, t) => sum + Number(t.finalAmount), 0)\<close>.\<close>

definition sumFinal :: "Transaction list \<Rightarrow> rat" where
  "sumFinal xs = foldl (\<lambda>sum t. sum + finalAmount t) 0 xs"

text \<open>A value of \<^verbatim>\<open>membershipCounts\<close> and \<^verbatim>\<open>paymentCounts\<close>: a number, or the string that
  \<^verbatim>\<open>+\<close> makes of a member of the prototype and a number (the text of the member followed
  by the digits). Such a string is not empty, so truthy, and \<^verbatim>\<open>-\<close> converts it to \<^verbatim>\<open>NaN\<close>.\<close>

datatype tally_val = Num rat | Text

text \<open>The loop body \<^verbatim>\<open>counts[k] = (counts[k] || 0) + Number(t.finalAmount)\<close>. The operator
  \<^verbatim>\<open>||\<close> replaces a missing entry and the falsy number 0 by 0 and keeps a string or an
  inherited member; \<^verbatim>\<open>+\<close> adds two numbers and concatenates otherwise.\<close>

definition tally_step :: "(Transaction \<Rightarrow> string) \<Rightarrow> tally_val obj \<Rightarrow> Transaction \<Rightarrow> tally_val obj" where
  "tally_step key counts t =
     obj_set counts (key t)
       (case obj_get counts (key t) of
          Undefined \<Rightarrow> Num (0 + finalAmount t)
        | Own (Num v) \<Rightarrow> Num ((if v = 0 then 0 else v) + finalAmount t)
        | Own Text \<Rightarrow> Text
        | Inherited \<Rightarrow> Text)"

definition tally :: "(Transaction \<Rightarrow> string) \<Rightarrow> Transaction list \<Rightarrow> tally_val obj" where
  "tally key ts = foldl (tally_step key) [] ts"

text \<open>The comparator \<^verbatim>\<open>([,a], [,b]) => b - a\<close> returns \<^verbatim>\<open>NaN\<close> when an operand is a string,
  which the sort takes as 0. It is consistent on the entries when every value is a number,
  and when it is 0 on every pair; the sort is then the stable sort. Otherwise the order is
  the engine's.\<close>

definition is_num :: "string \<times> tally_val \<Rightarrow> bool" where
  "is_num e = (case snd e of Num _ \<Rightarrow> True | Text \<Rightarrow> False)"

definition num_of :: "string \<times> tally_val \<Rightarrow> rat" where
  "num_of e = (case snd e of Num v \<Rightarrow> v | Text \<Rightarrow> 0)"

definition all_equal :: "(string \<times> tally_val) list \<Rightarrow> bool" where
  "all_equal es =
     list_all (\<lambda>a. list_all (\<lambda>b. if is_num a \<and> is_num b then num_of a = num_of b else True) es)
       es"

type_synonym engine = "(string \<times> tally_val) list \<Rightarrow> (string \<times> tally_val) list"

definition sortEntries :: "engine \<Rightarrow> (string \<times> tally_val) list \<Rightarrow> (string \<times> tally_val) list" where
  "sortEntries engine es =
     (if list_all is_num es then sort_desc num_of es
      else if all_equal es then es
      else engine es)"

text \<open>\<^verbatim>\<open>Object.entries(counts).sort(([,a], [,b]) => b - a)[0]?.[0] || 'None'\<close>: the
  fallback is taken when there is no entry and when the first key is the empty string.\<close>

definition topKey :: "engine \<Rightarrow> tally_val obj \<Rightarrow> string" where
  "topKey engine counts =
     (case sortEntries engine (Object_entries counts) of
        [] \<Rightarrow> ''None''
      | (k, _) # _ \<Rightarrow> (if k = [] then ''None'' else k))"

definition calculateStats :: "engine \<Rightarrow> Transaction list \<Rightarrow> Stats" where
  "calculateStats engine transactions =
     (let sales = filter (\<lambda>t. isRefund t = 0) transactions;
          refunds = filter (\<lambda>t. isRefund t = 1) transactions;
          totalSales = sumFinal sales;
          totalRefunds = sumFinal refunds;
          netRevenue = totalSales - totalRefunds
      in \<lparr> Stats.totalSales = totalSales,
           Stats.totalRefunds = totalRefunds,
           Stats.netRevenue = netRevenue,
           totalTransactions = length transactions,
           averageTransaction =
             (if length transactions > 0
              then js_div netRevenue (of_nat (length transactions)) else Finite 0),
           topMembershipType = topKey engine (tally membershipType transactions),
           topPaymentMethod = topKey engine (tally paymentMethod transactions) \<rparr>)"

subsection \<open>loadTransactions (lines 117-145): the two equality filters\<close>

text \<open>\<open>allTransactions\<close> is what the database returned for the date window.\<close>

definition loadTransactions :: "Transaction list \<Rightarrow> string \<Rightarrow> string \<Rightarrow> Transaction list" where
  "loadTransactions allTransactions filterMemberType filterPaymentMethod =
     (let filtered1 =
            (if filterMemberType \<noteq> ''all''
             then filter (\<lambda>t. membershipType t = filterMemberType) allTransactions
             else allTransactions);
          filtered2 =
            (if filterPaymentMethod \<noteq> ''all''
             then filter (\<lambda>t. paymentMethod t = filterPaymentMethod) filtered1
             else filtered1)
      in filtered2)"

subsection \<open>loadDailyReports (lines 159-245)\<close>

text \<open>What \<^verbatim>\<open>JSON.parse(t.items || '[]')\<close> and the loop over its result do with an item
  payload:
  \<^item> \<open>Lines\<close>: the text is read as an array of item lines, each with a string \<^verbatim>\<open>name\<close> and
    numbers \<^verbatim>\<open>price\<close> and \<^verbatim>\<open>quantity\<close>;
  \<^item> \<open>Fails\<close>: an exception is thrown, by \<^verbatim>\<open>JSON.parse\<close> on a text that is not JSON
    (\<^verbatim>\<open>SyntaxError\<close>), or by the loop on a value that has no \<^verbatim>\<open>forEach\<close> or on an element
    \<^verbatim>\<open>null\<close> (\<^verbatim>\<open>TypeError\<close>);
  \<^item> \<open>Irregular\<close>: the text is read as an array that holds an element of another shape and
    nothing is thrown.\<close>

datatype payload = Lines "CartItem list" | Fails error | Irregular

text \<open>What the function takes from the runtime: the two database queries with their
  \<^verbatim>\<open>gte\<close> and \<^verbatim>\<open>lte\<close> bounds; the date \<^verbatim>\<open>YYYY-MM-DD\<close> of a day number; the reading of an
  item payload; and the offset of the local time of the host from UTC, in milliseconds, at
  a time value and at a local time (ECMAScript's LocalTZA with flag true and false).\<close>

record 'c runtime =
  listTransactions :: "string \<Rightarrow> string \<Rightarrow> Transaction list"
  listCheckIns :: "string \<Rightarrow> string \<Rightarrow> 'c list"
  isoDate :: "int \<Rightarrow> string"
  parseJSON :: "string \<Rightarrow> payload"
  offsetAtUTC :: "int \<Rightarrow> int"
  offsetAtLocal :: "int \<Rightarrow> int"

definition msPerDay :: int where
  "msPerDay = 86400000"

text \<open>\<^verbatim>\<open>d.toISOString().split('T')[0]\<close>: the date of the UTC day of the time value.\<close>

definition dateStr :: "'c runtime \<Rightarrow> int \<Rightarrow> string" where
  "dateStr rt d = isoDate rt (d div msPerDay)"

text \<open>\<^verbatim>\<open>d.setDate(d.getDate() + 1)\<close>: the local time of \<open>d\<close>, one day later on the local
  calendar at the same time of day, back to UTC.\<close>

definition nextDay :: "'c runtime \<Rightarrow> int \<Rightarrow> int" where
  "nextDay rt d =
     (let localTime = d + offsetAtUTC rt d;
          newLocal = localTime + msPerDay
      in newLocal - offsetAtLocal rt newLocal)"

text \<open>The JSON text \<^verbatim>\<open>[]\<close> is the empty array; every other text is the runtime's.\<close>

definition JSON_parse :: "(string \<Rightarrow> payload) \<Rightarrow> string \<Rightarrow> payload" where
  "JSON_parse ext s = (if s = ''[]'' then Lines [] else ext s)"

text \<open>\<^verbatim>\<open>JSON.parse(t.items || '[]')\<close>: the empty string is the only falsy string.\<close>

definition parseItems :: "(string \<Rightarrow> payload) \<Rightarrow> Transaction \<Rightarrow> payload" where
  "parseItems ext t = JSON_parse ext (if items t = [] then ''[]'' else items t)"

text \<open>The body of \<^verbatim>\<open>items.forEach\<close>; an entry of \<^verbatim>\<open>itemCounts\<close> is the pair
  (quantity, revenue). When \<^verbatim>\<open>itemCounts[item.name]\<close> reads a member of the prototype the
  guard does not create an entry, and the two \<^verbatim>\<open>+=\<close> write on that member.\<close>

definition addItem :: "(rat \<times> rat) obj \<Rightarrow> CartItem \<Rightarrow> (rat \<times> rat) obj" where
  "addItem itemCounts it =
     (case obj_get itemCounts (name it) of
        Inherited \<Rightarrow> itemCounts
      | Undefined \<Rightarrow>
          obj_set itemCounts (name it)
            (0 + CartItem.quantity it, 0 + price it * CartItem.quantity it)
      | Own (q, r) \<Rightarrow>
          obj_set itemCounts (name it)
            (q + CartItem.quantity it, r + price it * CartItem.quantity it))"

text \<open>\<^verbatim>\<open>sales.forEach\<close>: an exception leaves the loop. After an irregular payload the
  entries are not modelled (\<open>None\<close>), and the loop goes on.\<close>

fun itemLoop ::
  "(string \<Rightarrow> payload) \<Rightarrow> (rat \<times> rat) obj option \<Rightarrow> Transaction list
     \<Rightarrow> error + (rat \<times> rat) obj option" where
  "itemLoop ext itemCounts [] = Inr itemCounts"
| "itemLoop ext itemCounts (t # ts) =
     (case parseItems ext t of
        Fails e \<Rightarrow> Inl e
      | Irregular \<Rightarrow> itemLoop ext None ts
      | Lines its \<Rightarrow> itemLoop ext (map_option (\<lambda>c. foldl addItem c its) itemCounts) ts)"

text \<open>The body of \<^verbatim>\<open>dayTransactions.forEach\<close>; an entry of \<^verbatim>\<open>paymentCounts\<close> is the
  pair (amount, count).\<close>

definition addPayment :: "(rat \<times> nat) obj \<Rightarrow> Transaction \<Rightarrow> (rat \<times> nat) obj" where
  "addPayment paymentCounts t =
     (case obj_get paymentCounts (paymentMethod t) of
        Inherited \<Rightarrow> paymentCounts
      | Undefined \<Rightarrow> obj_set paymentCounts (paymentMethod t) (0 + finalAmount t, 0 + 1)
      | Own (a, c) \<Rightarrow> obj_set paymentCounts (paymentMethod t) (a + finalAmount t, c + 1))"

definition topItemsOf :: "(rat \<times> rat) obj \<Rightarrow> TopItem list" where
  "topItemsOf itemCounts =
     take 5 (sort_desc revenue
       (map (\<lambda>(i, q, r). \<lparr> item = i, quantity = q, revenue = r \<rparr>)
          (Object_entries itemCounts)))"

definition paymentMethodsOf :: "(rat \<times> nat) obj \<Rightarrow> PaymentEntry list" where
  "paymentMethodsOf paymentCounts =
     sort_desc amount
       (map (\<lambda>(m, a, c). \<lparr> method = m, amount = a, count = c \<rparr>)
          (Object_entries paymentCounts))"

definition dayTransactions :: "'c runtime \<Rightarrow> string \<Rightarrow> Transaction list" where
  "dayTransactions rt ds = listTransactions rt ds (ds @ ''T23:59:59'')"

definition dayCheckIns :: "'c runtime \<Rightarrow> string \<Rightarrow> 'c list" where
  "dayCheckIns rt ds = listCheckIns rt ds (ds @ ''T23:59:59'')"

text \<open>One pass of the \<^verbatim>\<open>for\<close> loop, up to \<^verbatim>\<open>reports.push\<close>.\<close>

definition dayReport :: "'c runtime \<Rightarrow> string \<Rightarrow> error + DailyReport" where
  "dayReport rt ds =
     (let txs = dayTransactions rt ds;
          checkIns = dayCheckIns rt ds;
          sales = filter (\<lambda>t. isRefund t = 0) txs;
          refunds = filter (\<lambda>t. isRefund t = 1) txs;
          totalSales = sumFinal sales;
          totalRefunds = sumFinal refunds
      in case itemLoop (parseJSON rt) (Some []) sales of
           Inl e \<Rightarrow> Inl e
         | Inr itemCounts \<Rightarrow>
             Inr \<lparr> date = ds,
                   DailyReport.totalSales = totalSales,
                   DailyReport.totalRefunds = totalRefunds,
                   DailyReport.netRevenue = totalSales - totalRefunds,
                   transactionCount = length txs,
                   memberCheckIns = length checkIns,
                   topItems = map_option topItemsOf itemCounts,
                   paymentMethods = paymentMethodsOf (foldl addPayment [] txs) \<rparr>)"

text \<open>\<^verbatim>\<open>for (let d = new Date(startDate); d <= endDate; d.setDate(d.getDate() + 1))\<close>, on
  time values. Nothing in the code bounds the number of passes: \<open>None\<close> is a loop that
  does not end.\<close>

partial_function (option) dayLoop ::
  "'c runtime \<Rightarrow> int \<Rightarrow> int \<Rightarrow> DailyReport list \<Rightarrow> (error + DailyReport list) option" where
  "dayLoop rt d endDate reports =
     (if d \<le> endDate
      then (case dayReport rt (dateStr rt d) of
              Inl e \<Rightarrow> Some (Inl e)
            | Inr r \<Rightarrow> dayLoop rt (nextDay rt d) endDate (reports @ [r]))
      else Some (Inr reports))"

declare dayLoop.simps [code]

text \<open>\<open>startDay\<close> and \<open>endDay\<close> are the day numbers of \<^verbatim>\<open>dateRange.startDate\<close> and
  \<^verbatim>\<open>dateRange.endDate\<close>. \<open>Inr\<close> is the list given to \<^verbatim>\<open>setDailyReports\<close>; on \<open>Inl\<close> the
  \<^verbatim>\<open>catch\<close> block logs the exception and the state keeps the reports it had.\<close>

definition loadDailyReports ::
  "'c runtime \<Rightarrow> int \<Rightarrow> int \<Rightarrow> (error + DailyReport list) option" where
  "loadDailyReports rt startDay endDay =
     (case dayLoop rt (startDay * msPerDay) (endDay * msPerDay) [] of
        None \<Rightarrow> None
      | Some (Inl e) \<Rightarrow> Some (Inl e)
      | Some (Inr reports) \<Rightarrow> Some (Inr (rev reports)))"

subsection \<open>exportToCSV (lines 282-312)\<close>

text \<open>A value of a record to export is a string or something else, whose type is
  \<open>'v\<close>; a record is the list of its own properties as \<^verbatim>\<open>Object.keys\<close> and
  \<^verbatim>\<open>Object.values\<close> enumerate them. \<open>toStr\<close> is the string that \<^verbatim>\<open>Array.prototype.join\<close>
  makes of a value that is not a string.\<close>

datatype 'v cell = Str string | Other 'v

datatype export = NoDataToast | Download string string

fun join :: "string \<Rightarrow> string list \<Rightarrow> string" where
  "join sep [] = []"
| "join sep [x] = x"
| "join sep (x # y # ys) = x @ sep @ join sep (y # ys)"

text \<open>\<^verbatim>\<open>typeof value === 'string' && value.includes(',') ? `"${value}"` : value\<close>, then
  stringified by \<^verbatim>\<open>join\<close>.\<close>

definition csvCell :: "('v \<Rightarrow> string) \<Rightarrow> 'v cell \<Rightarrow> string" where
  "csvCell toStr v =
     (case v of
        Str s \<Rightarrow> (if CHR '','' \<in> set s then [CHR 0x22] @ s @ [CHR 0x22] else s)
      | Other x \<Rightarrow> toStr x)"

definition csvRow :: "('v \<Rightarrow> string) \<Rightarrow> (string \<times> 'v cell) list \<Rightarrow> string" where
  "csvRow toStr row = join '','' (map (\<lambda>(k, v). csvCell toStr v) row)"

text \<open>The result is the toast for no data, or the download: its file name and text.\<close>

definition exportToCSV ::
  "('v \<Rightarrow> string) \<Rightarrow> string \<Rightarrow> string \<Rightarrow> (string \<times> 'v cell) list list \<Rightarrow> string \<Rightarrow> export" where
  "exportToCSV toStr startDate endDate data filename =
     (case data of
        [] \<Rightarrow> NoDataToast
      | first # _ \<Rightarrow>
          (let headers = join '','' (map fst first);
               rows = join [CHR 0x0A] (map (csvRow toStr) data);
               csv = headers @ [CHR 0x0A] @ rows
           in Download (filename @ ''_'' @ startDate @ ''_to_'' @ endDate @ ''.csv'') csv))"

subsection \<open>Notions of the statements\<close>

text \<open>The distinct elements of a list in the order of their first occurrence.\<close>

definition first_keys :: "'a list \<Rightarrow> 'a list" where
  "first_keys ks = foldl (\<lambda>acc k. if k \<in> set acc then acc else acc @ [k]) [] ks"

text \<open>The summed \<^verbatim>\<open>finalAmount\<close> of the transactions with key \<open>k\<close>, sales and refunds alike.\<close>

definition total :: "(Transaction \<Rightarrow> string) \<Rightarrow> Transaction list \<Rightarrow> string \<Rightarrow> rat" where
  "total key ts k = sum_list (map finalAmount (filter (\<lambda>t. key t = k) ts))"

text \<open>The first element of a list at which \<open>f\<close> is highest.\<close>

fun first_max :: "('a \<Rightarrow> rat) \<Rightarrow> 'a list \<Rightarrow> 'a option" where
  "first_max f [] = None"
| "first_max f (x # xs) = Some (foldl (\<lambda>best y. if f best < f y then y else best) x xs)"

text \<open>The top key as the specification words it: the key with the highest total, the
  first encountered in the sequence among equals.\<close>

definition spec_top :: "(Transaction \<Rightarrow> string) \<Rightarrow> Transaction list \<Rightarrow> string option" where
  "spec_top key ts = first_max (total key ts) (first_keys (map key ts))"

text \<open>The key with the highest total, the first in the enumeration order of the keys
  among equals.\<close>

definition enum_top :: "(Transaction \<Rightarrow> string) \<Rightarrow> Transaction list \<Rightarrow> string option" where
  "enum_top key ts =
     first_max (total key ts) (enum_order (\<lambda>k. k) (first_keys (map key ts)))"

text \<open>A read and a write of an own property as one step, for the proofs.\<close>

definition upsert :: "'v \<Rightarrow> ('v \<Rightarrow> 'v) \<Rightarrow> 'v obj \<Rightarrow> string \<Rightarrow> 'v obj" where
  "upsert init f ob k = own_set ob k (f (case map_of ob k of None \<Rightarrow> init | Some v \<Rightarrow> v))"

text \<open>The item payload of a transaction throws.\<close>

definition fails :: "(string \<Rightarrow> payload) \<Rightarrow> Transaction \<Rightarrow> bool" where
  "fails ext t = (case parseItems ext t of Fails _ \<Rightarrow> True | Lines _ \<Rightarrow> False | Irregular \<Rightarrow> False)"

text \<open>The item payload of a transaction is an array of item lines.\<close>

definition regular :: "(string \<Rightarrow> payload) \<Rightarrow> Transaction \<Rightarrow> bool" where
  "regular ext t = (case parseItems ext t of Lines _ \<Rightarrow> True | Fails _ \<Rightarrow> False | Irregular \<Rightarrow> False)"

text \<open>The item lines of a transaction (none when the payload is not an array of lines).\<close>

definition itemsOf :: "(string \<Rightarrow> payload) \<Rightarrow> Transaction \<Rightarrow> CartItem list" where
  "itemsOf ext t = (case parseItems ext t of Lines its \<Rightarrow> its | Fails _ \<Rightarrow> [] | Irregular \<Rightarrow> [])"

text \<open>The sales among the transactions the database returns for a date.\<close>

definition daySales :: "'c runtime \<Rightarrow> string \<Rightarrow> Transaction list" where
  "daySales rt ds = filter (\<lambda>t. isRefund t = 0) (dayTransactions rt ds)"

text \<open>The item lines of the sales of a date, flattened in order.\<close>

definition dayLines :: "'c runtime \<Rightarrow> string \<Rightarrow> CartItem list" where
  "dayLines rt ds = concat (map (itemsOf (parseJSON rt)) (daySales rt ds))"

text \<open>No item payload of a sale of the date throws.\<close>

definition dayOk :: "'c runtime \<Rightarrow> string \<Rightarrow> bool" where
  "dayOk rt ds = list_all (\<lambda>t. \<not> fails (parseJSON rt) t) (daySales rt ds)"

text \<open>Every item payload of a sale of the date is an array of item lines.\<close>

definition dayRegular :: "'c runtime \<Rightarrow> string \<Rightarrow> bool" where
  "dayRegular rt ds = list_all (regular (parseJSON rt)) (daySales rt ds)"

text \<open>The item lines and the transactions that get an entry: those whose key does not name
  a member of \<^verbatim>\<open>Object.prototype\<close>.\<close>

definition countedLines :: "CartItem list \<Rightarrow> CartItem list" where
  "countedLines ls = filter (\<lambda>l. \<not> inherited (name l)) ls"

definition countedPayments :: "Transaction list \<Rightarrow> Transaction list" where
  "countedPayments txs = filter (\<lambda>t. \<not> inherited (paymentMethod t)) txs"

text \<open>Item lines grouped by name: one entry for each name, in the enumeration order of the
  names, with the summed quantity and the summed price times quantity.\<close>

definition itemEntries :: "CartItem list \<Rightarrow> TopItem list" where
  "itemEntries ls =
     map (\<lambda>n. \<lparr> item = n,
               quantity = sum_list (map CartItem.quantity (filter (\<lambda>l. name l = n) ls)),
               revenue = sum_list (map (\<lambda>l. price l * CartItem.quantity l)
                                    (filter (\<lambda>l. name l = n) ls)) \<rparr>)
       (enum_order (\<lambda>n. n) (first_keys (map name ls)))"

text \<open>Transactions grouped by payment method: one entry for each method, in the enumeration
  order of the methods, with the summed \<^verbatim>\<open>finalAmount\<close> and the number of transactions.\<close>

definition paymentEntries :: "Transaction list \<Rightarrow> PaymentEntry list" where
  "paymentEntries txs =
     map (\<lambda>m. \<lparr> method = m,
               amount = sum_list (map finalAmount (filter (\<lambda>t. paymentMethod t = m) txs)),
               count = length (filter (\<lambda>t. paymentMethod t = m) txs) \<rparr>)
       (enum_order (\<lambda>m. m) (first_keys (map paymentMethod txs)))"

text \<open>The report of a date, stated from the transactions and check-ins of the date.\<close>

definition reportOf :: "'c runtime \<Rightarrow> string \<Rightarrow> DailyReport" where
  "reportOf rt ds =
     \<lparr> date = ds,
       DailyReport.totalSales = sum_list (map finalAmount (daySales rt ds)),
       DailyReport.totalRefunds =
         sum_list (map finalAmount (filter (\<lambda>t. isRefund t = 1) (dayTransactions rt ds))),
       DailyReport.netRevenue =
         sum_list (map finalAmount (daySales rt ds))
         - sum_list (map finalAmount (filter (\<lambda>t. isRefund t = 1) (dayTransactions rt ds))),
       transactionCount = length (dayTransactions rt ds),
       memberCheckIns = length (dayCheckIns rt ds),
       topItems =
         (if dayRegular rt ds
          then Some (take 5 (sort_desc revenue (itemEntries (countedLines (dayLines rt ds)))))
          else None),
       paymentMethods =
         sort_desc amount (paymentEntries (countedPayments (dayTransactions rt ds))) \<rparr>"

text \<open>The time values at which the loop of the days runs its body, when the loop ends.\<close>

partial_function (option) visits :: "'c runtime \<Rightarrow> int \<Rightarrow> int \<Rightarrow> int list option" where
  "visits rt d endDate =
     (if d \<le> endDate
      then Option.bind (visits rt (nextDay rt d) endDate) (\<lambda>ds. Some (d # ds))
      else Some [])"

declare visits.simps [code]



subsection \<open>Example inputs\<close>

text \<open>A transaction with the given membership type, item payload, payment method,
  final amount and refund flag.\<close>

definition exampleTx :: "string \<Rightarrow> string \<Rightarrow> string \<Rightarrow> rat \<Rightarrow> int \<Rightarrow> Transaction" where
  "exampleTx m its p a r =
     \<lparr> id_tx = ''tx'', memberName = ''Alex'', membershipType = m, items = its,
       originalAmount = a, discountAmount = 0, finalAmount = a, paymentMethod = p,
       transactionDate = ''2024-01-01T22:15:00'', cashierName = ''Sam'', isRefund = r,
       refundReason = None \<rparr>"

text \<open>The same transaction at another time.\<close>

definition onDay :: "string \<Rightarrow> Transaction \<Rightarrow> Transaction" where
  "onDay d t = t\<lparr> transactionDate := d \<rparr>"

text \<open>An engine that leaves the entries as they are when the comparator is not consistent.\<close>

definition keepOrder :: engine where
  "keepOrder es = es"

text \<open>A walk-in without a membership type spends most; two payment methods tie, one of
  them named by a number; a membership type named like a member of the prototype spends
  most.\<close>

definition walkIns :: "Transaction list" where
  "walkIns = [exampleTx [] [] ''cash'' 25 0, exampleTx ''VIP'' [] ''card'' 10 0]"

definition tiedPayments :: "Transaction list" where
  "tiedPayments = [exampleTx ''VIP'' [] ''cash'' 10 0, exampleTx ''Gold'' [] ''1664'' 10 0]"

definition namedConstructor :: "Transaction list" where
  "namedConstructor =
     [exampleTx ''VIP'' [] ''cash'' 10 0, exampleTx ''constructor'' [] ''cash'' 25 0]"

text \<open>Item payloads: four JSON arrays of item lines, a JSON object, and a text that is
  cut off.\<close>

definition beerTwo :: string where
  \<open>beerTwo = ''[{"name":"Beer","price":8,"quantity":2}]''\<close>

definition beerOne :: string where
  \<open>beerOne = ''[{"name":"Beer","price":8,"quantity":1}]''\<close>

definition beerAndLager :: string where
  \<open>beerAndLager =
     ''[{"name":"Beer","price":8,"quantity":1},{"name":"1664","price":8,"quantity":1}]''\<close>

definition shotAndBeer :: string where
  \<open>shotAndBeer =
     ''[{"name":"toString","price":8,"quantity":2},{"name":"Beer","price":8,"quantity":1}]''\<close>

definition beerObject :: string where
  \<open>beerObject = ''{"name":"Beer","price":8,"quantity":1}''\<close>

definition truncated :: string where
  \<open>truncated = ''[{"name":"Beer","pri''\<close>

text \<open>What the code does with the payloads above: the four arrays are read, the loop
  throws a \<^verbatim>\<open>TypeError\<close> on the object, which has no \<^verbatim>\<open>forEach\<close>, and \<^verbatim>\<open>JSON.parse\<close> throws
  a \<^verbatim>\<open>SyntaxError\<close> on the text that is cut off.\<close>

definition demoParse :: "string \<Rightarrow> payload" where
  "demoParse s =
     (if s = beerTwo then Lines [\<lparr> name = ''Beer'', price = 8, quantity = 2 \<rparr>]
      else if s = beerOne then Lines [\<lparr> name = ''Beer'', price = 8, quantity = 1 \<rparr>]
      else if s = beerAndLager
        then Lines [\<lparr> name = ''Beer'', price = 8, quantity = 1 \<rparr>,
                    \<lparr> name = ''1664'', price = 8, quantity = 1 \<rparr>]
      else if s = shotAndBeer
        then Lines [\<lparr> name = ''toString'', price = 8, quantity = 2 \<rparr>,
                    \<lparr> name = ''Beer'', price = 8, quantity = 1 \<rparr>]
      else if s = beerObject then Fails TypeError
      else Fails SyntaxError)"

text \<open>The dates of the days used below.\<close>

definition demoDate :: "int \<Rightarrow> string" where
  "demoDate d =
     (if d = 19723 then ''2024-01-01'' else if d = 19724 then ''2024-01-02''
      else if d = 19725 then ''2024-01-03'' else if d = 19726 then ''2024-01-04''
      else if d = 19727 then ''2024-01-05'' else if d = 19728 then ''2024-01-06''
      else if d = 19729 then ''2024-01-07''
      else if d = 20029 then ''2024-11-02'' else if d = 20030 then ''2024-11-03''
      else if d = 20031 then ''2024-11-04''
      else ''1970-01-01'')"

text \<open>A database on a host whose local time is UTC: two beer sales on 2024-01-01; nothing
  on 2024-01-02; on 2024-01-03 a sale of two items with equal revenue, a refund with a
  payload that is cut off and a sale with an empty payload; on 2024-01-04 a sale with a
  payload that is cut off; on 2024-01-05 a sale paid by a method named
  \<^verbatim>\<open>constructor\<close>; on 2024-01-06 a sale with an item named \<^verbatim>\<open>toString\<close>; on 2024-01-07 a
  sale whose payload is a JSON object.\<close>

definition demoRuntime :: "unit runtime" where
  "demoRuntime =
     \<lparr> listTransactions = (\<lambda>gte lte.
         if gte = ''2024-01-01''
           then [exampleTx ''VIP'' beerTwo ''cash'' 16 0, exampleTx ''Gold'' beerOne ''card'' 8 0]
         else if gte = ''2024-01-03''
           then map (onDay ''2024-01-03T23:40:00'')
                  [exampleTx ''VIP'' beerAndLager ''card'' 16 0,
                   exampleTx ''VIP'' truncated ''cash'' 16 1,
                   exampleTx ''Gold'' [] ''cash'' 5 0]
         else if gte = ''2024-01-04''
           then map (onDay ''2024-01-04T21:05:00'')
                  [exampleTx ''VIP'' beerTwo ''cash'' 16 0,
                   exampleTx ''VIP'' truncated ''cash'' 8 0]
         else if gte = ''2024-01-05''
           then map (onDay ''2024-01-05T22:30:00'')
                  [exampleTx ''VIP'' beerOne ''cash'' 8 0,
                   exampleTx ''VIP'' beerOne ''constructor'' 8 0]
         else if gte = ''2024-01-06''
           then map (onDay ''2024-01-06T22:30:00'')
                  [exampleTx ''VIP'' shotAndBeer ''cash'' 24 0]
         else if gte = ''2024-01-07''
           then map (onDay ''2024-01-07T22:30:00'')
                  [exampleTx ''VIP'' beerObject ''cash'' 8 0]
         else []),
       listCheckIns = (\<lambda>gte lte. if gte = ''2024-01-01'' then [(), ()] else []),
       isoDate = demoDate,
       parseJSON = demoParse,
       offsetAtUTC = (\<lambda>t. 0),
       offsetAtLocal = (\<lambda>t. 0) \<rparr>"

text \<open>An empty database on a host in New York in the autumn of 2024: the local time is 4
  hours behind UTC until 2024-11-03 06:00 UTC, when the clocks go back from 02:00 to 01:00,
  and 5 hours behind after it. A local time that occurs twice is taken as the earlier.\<close>

definition newYork :: "unit runtime" where
  "newYork =
     \<lparr> listTransactions = (\<lambda>gte lte. []),
       listCheckIns = (\<lambda>gte lte. []),
       isoDate = demoDate,
       parseJSON = demoParse,
       offsetAtUTC = (\<lambda>t. if t < 20030 * 86400000 + 6 * 3600000 then - 14400000 else - 18000000),
       offsetAtLocal = (\<lambda>t. if t < 20030 * 86400000 + 2 * 3600000 then - 14400000 else - 18000000) \<rparr>"

section \<open>Properties\<close>

subsection \<open>Summary statistics\<close>

lemma foldl_add: "foldl (\<lambda>s t. s + f t) a xs = a + sum_list (map f xs)" for a :: rat
  by (induction xs arbitrary: a) (simp_all add: add.assoc)

lemma sumFinal_sum_list: "sumFinal xs = sum_list (map finalAmount xs)"
  by (simp add: sumFinal_def foldl_add)

text \<open>
  C1. \<^verbatim>\<open>calculateStats\<close> splits the transactions by the \<^verbatim>\<open>isRefund\<close> flag into the sales
  (flag 0) and the refunds (flag 1): \<^verbatim>\<open>totalSales\<close> is the sum of \<^verbatim>\<open>finalAmount\<close> over the
  sales, \<^verbatim>\<open>totalRefunds\<close> the sum over the refunds, and \<^verbatim>\<open>netRevenue\<close> is their difference.
  When every flag is 0 or 1 the two lists are a partition of the input.
\<close>

theorem C1_summarize_totals:
  "Stats.totalSales (calculateStats engine ts)
     = sum_list (map finalAmount (filter (\<lambda>t. isRefund t = 0) ts))
   \<and> Stats.totalRefunds (calculateStats engine ts)
     = sum_list (map finalAmount (filter (\<lambda>t. isRefund t = 1) ts))
   \<and> Stats.netRevenue (calculateStats engine ts)
     = Stats.totalSales (calculateStats engine ts) - Stats.totalRefunds (calculateStats engine ts)
   \<and> ((\<forall>t \<in> set ts. isRefund t = 0 \<or> isRefund t = 1) \<longrightarrow>
        partition (\<lambda>t. isRefund t = 0) ts
          = (filter (\<lambda>t. isRefund t = 0) ts, filter (\<lambda>t. isRefund t = 1) ts))"
proof -
  have "(\<forall>t \<in> set ts. isRefund t = 0 \<or> isRefund t = 1) \<Longrightarrow>
        filter (Not \<circ> (\<lambda>t. isRefund t = 0)) ts = filter (\<lambda>t. isRefund t = 1) ts"
    by (rule filter_cong) auto
  then show ?thesis
    by (simp add: calculateStats_def Let_def sumFinal_sum_list)
qed

theorem C1_summarize_totals_witness:
  "list_all (\<lambda>t. isRefund t = 0 \<or> isRefund t = 1)
     [exampleTx ''VIP'' [] ''cash'' 25 0, exampleTx ''Gold'' [] ''card'' 10 1]
   \<and> partition (\<lambda>t. isRefund t = 0)
       [exampleTx ''VIP'' [] ''cash'' 25 0, exampleTx ''Gold'' [] ''card'' 10 1]
     = ([exampleTx ''VIP'' [] ''cash'' 25 0], [exampleTx ''Gold'' [] ''card'' 10 1])
   \<and> Stats.totalSales (calculateStats keepOrder
       [exampleTx ''VIP'' [] ''cash'' 25 0, exampleTx ''Gold'' [] ''card'' 10 1]) = 25
   \<and> Stats.totalRefunds (calculateStats keepOrder
       [exampleTx ''VIP'' [] ''cash'' 25 0, exampleTx ''Gold'' [] ''card'' 10 1]) = 10
   \<and> Stats.netRevenue (calculateStats keepOrder
       [exampleTx ''VIP'' [] ''cash'' 25 0, exampleTx ''Gold'' [] ''card'' 10 1]) = 15"
  using C1_summarize_totals
    [of keepOrder "[exampleTx ''VIP'' [] ''cash'' 25 0, exampleTx ''Gold'' [] ''card'' 10 1]"]
  by (simp add: exampleTx_def)

text \<open>
  C5. \<^verbatim>\<open>averageTransaction\<close> is \<^verbatim>\<open>netRevenue\<close> divided by the number of transactions when
  there is one, and 0 for the empty sequence: the conditional takes the branch without the
  division, and the division itself gives \<^verbatim>\<open>NaN\<close> there (0 divided by 0). A sale of 25 and a
  refund of 10 give 7.5.
\<close>

theorem C5_average:
  "averageTransaction (calculateStats engine []) = Finite 0
   \<and> (ts \<noteq> [] \<longrightarrow>
        averageTransaction (calculateStats engine ts)
          = Finite (Stats.netRevenue (calculateStats engine ts) / of_nat (length ts)))
   \<and> (finalAmount a = 25 \<and> isRefund a = 0 \<and> finalAmount b = 10 \<and> isRefund b = 1 \<longrightarrow>
        averageTransaction (calculateStats engine [a, b]) = Finite (15 / 2))
   \<and> js_div (Stats.netRevenue (calculateStats engine [])) (of_nat (length ([] :: Transaction list)))
       = NaN"
  by (simp add: calculateStats_def Let_def sumFinal_def js_div_def)

theorem C5_average_witness:
  "[exampleTx ''VIP'' [] ''cash'' 25 0, exampleTx ''VIP'' [] ''cash'' 10 1] \<noteq> []
   \<and> Stats.netRevenue (calculateStats keepOrder
       [exampleTx ''VIP'' [] ''cash'' 25 0, exampleTx ''VIP'' [] ''cash'' 10 1]) = 15
   \<and> averageTransaction (calculateStats keepOrder
       [exampleTx ''VIP'' [] ''cash'' 25 0, exampleTx ''VIP'' [] ''cash'' 10 1]) = Finite (15 / 2)"
  using C5_average
    [of keepOrder "[exampleTx ''VIP'' [] ''cash'' 25 0, exampleTx ''VIP'' [] ''cash'' 10 1]"
      "exampleTx ''VIP'' [] ''cash'' 25 0" "exampleTx ''VIP'' [] ''cash'' 10 1"]
  by (simp add: exampleTx_def calculateStats_def Let_def sumFinal_def)

text \<open>
  C10. For the empty sequence both \<^verbatim>\<open>topMembershipType\<close> and \<^verbatim>\<open>topPaymentMethod\<close> are the
  string \<^verbatim>\<open>None\<close>.
\<close>

theorem C10_empty_defaults:
  "topMembershipType (calculateStats engine []) = ''None''
   \<and> topPaymentMethod (calculateStats engine []) = ''None''"
  by (simp add: calculateStats_def tally_def topKey_def Object_entries_def enum_order_def
      sortEntries_def sort_desc_def sumFinal_def)

subsection \<open>Grouping by key\<close>

lemma first_keys_Nil [simp]: "first_keys [] = []"
  by (simp add: first_keys_def)

lemma first_keys_snoc:
  "first_keys (ks @ [k]) = (if k \<in> set (first_keys ks) then first_keys ks else first_keys ks @ [k])"
  by (simp add: first_keys_def)

lemma set_first_keys [simp]: "set (first_keys ks) = set ks"
  by (induction ks rule: rev_induct) (auto simp: first_keys_snoc)

lemma distinct_first_keys [simp]: "distinct (first_keys ks)"
  by (induction ks rule: rev_induct) (auto simp: first_keys_snoc)

lemma map_fst_own_set:
  "map fst (own_set ob k v) = (if k \<in> set (map fst ob) then map fst ob else map fst ob @ [k])"
  by (induction ob) (force simp: image_iff)+

lemma keys_own_set: "fst ` set (own_set ob k v) = insert k (fst ` set ob)"
proof -
  have "set (map fst (own_set ob k v)) = insert k (set (map fst ob))"
    by (auto simp: map_fst_own_set)
  then show ?thesis
    by simp
qed

lemma map_of_map_keys: "map_of (map (\<lambda>k. (k, F k)) ks) k = (if k \<in> set ks then Some (F k) else None)"
  by (induction ks) auto

lemma own_set_map_new:
  "k \<notin> set ks \<Longrightarrow> own_set (map (\<lambda>k. (k, F k)) ks) k v = map (\<lambda>k. (k, F k)) ks @ [(k, v)]"
  by (induction ks) auto

lemma own_set_map_old:
  "distinct ks \<Longrightarrow> k \<in> set ks \<Longrightarrow>
   own_set (map (\<lambda>k. (k, F k)) ks) k v = map (\<lambda>k'. (k', if k' = k then v else F k')) ks"
  by (induction ks) auto

lemma foldl_upsert:
  "foldl (\<lambda>ob x. upsert init (g x) ob (key x)) [] xs
     = map (\<lambda>k. (k, foldl (\<lambda>v x. g x v) init (filter (\<lambda>x. key x = k) xs)))
         (first_keys (map key xs))"
proof (induction xs rule: rev_induct)
  case Nil
  then show ?case by simp
next
  case (snoc x xs)
  let ?F = "\<lambda>k. foldl (\<lambda>v x. g x v) init (filter (\<lambda>x. key x = k) xs)"
  let ?ks = "first_keys (map key xs)"
  show ?case
  proof (cases "key x \<in> set ?ks")
    case True
    then show ?thesis
      using snoc.IH
      by (simp add: upsert_def map_of_map_keys own_set_map_old first_keys_snoc)
  next
    case False
    then have "key x \<notin> key ` set xs"
      by simp
    then have "\<forall>y \<in> set xs. key y \<noteq> key x"
      by (metis imageI)
    then have "filter (\<lambda>y. key y = key x) xs = []"
      by (simp add: filter_empty_conv)
    with False show ?thesis
      using snoc.IH
      by (auto simp: upsert_def map_of_map_keys own_set_map_new first_keys_snoc)
  qed
qed

text \<open>A loop that skips the elements whose key names an inherited member and upserts the
  others, from the empty object.\<close>

lemma foldl_skip_inherited:
  assumes skip: "\<And>ob x. inherited (key x) \<Longrightarrow> map_of ob (key x) = None \<Longrightarrow> step ob x = ob"
    and ups: "\<And>ob x. \<not> inherited (key x) \<Longrightarrow> step ob x = upsert init (g x) ob (key x)"
    and inv: "\<forall>k \<in> fst ` set ob. \<not> inherited k"
  shows "foldl step ob xs
     = foldl (\<lambda>ob x. upsert init (g x) ob (key x)) ob (filter (\<lambda>x. \<not> inherited (key x)) xs)"
  using inv
proof (induction xs arbitrary: ob)
  case Nil
  then show ?case by simp
next
  case (Cons x xs)
  show ?case
  proof (cases "inherited (key x)")
    case True
    with Cons.prems have "key x \<notin> fst ` set ob"
      by blast
    then have "map_of ob (key x) = None"
      by (simp add: map_of_eq_None_iff)
    with True have "step ob x = ob"
      by (rule skip)
    with True Cons show ?thesis
      by simp
  next
    case False
    then have eq: "step ob x = upsert init (g x) ob (key x)"
      by (rule ups)
    have "\<forall>k \<in> fst ` set (upsert init (g x) ob (key x)). \<not> inherited k"
      using Cons.prems False by (simp add: upsert_def keys_own_set)
    from Cons.IH [OF this] False eq show ?thesis
      by simp
  qed
qed

lemma inherited_proto: "inherited ''__proto__''"
  by (simp add: inherited_def)

lemma obj_set_regular: "\<not> inherited k \<Longrightarrow> obj_set ob k v = own_set ob k v"
  using inherited_proto by (auto simp: obj_set_def)

lemma addItem_skip:
  "inherited (name it) \<Longrightarrow> map_of ob (name it) = None \<Longrightarrow> addItem ob it = ob"
  by (simp add: addItem_def obj_get_def)

lemma addItem_upsert:
  "\<not> inherited (name it) \<Longrightarrow>
   addItem ob it
     = upsert (0, 0) (\<lambda>(q, r). (q + CartItem.quantity it, r + price it * CartItem.quantity it))
         ob (name it)"
  by (cases "map_of ob (name it)")
    (auto simp: addItem_def obj_get_def upsert_def obj_set_regular)

lemma addPayment_skip:
  "inherited (paymentMethod t) \<Longrightarrow> map_of ob (paymentMethod t) = None \<Longrightarrow> addPayment ob t = ob"
  by (simp add: addPayment_def obj_get_def)

lemma addPayment_upsert:
  "\<not> inherited (paymentMethod t) \<Longrightarrow>
   addPayment ob t
     = upsert (0, 0) (\<lambda>(a, c). (a + finalAmount t, Suc c)) ob (paymentMethod t)"
  by (cases "map_of ob (paymentMethod t)")
    (auto simp: addPayment_def obj_get_def upsert_def obj_set_regular)

lemma foldl_pair_items:
  "foldl (\<lambda>v x. case v of (q, r) \<Rightarrow> (q + CartItem.quantity x, r + price x * CartItem.quantity x)) (q0, r0) xs
     = (q0 + sum_list (map CartItem.quantity xs),
        r0 + sum_list (map (\<lambda>x. price x * CartItem.quantity x) xs))"
  by (induction xs arbitrary: q0 r0) (simp_all add: add.assoc)

lemma foldl_pair_payments:
  "foldl (\<lambda>v t. case v of (a, c) \<Rightarrow> (a + finalAmount t, Suc c)) (a0, c0) xs
     = (a0 + sum_list (map finalAmount xs), c0 + length xs)"
  by (induction xs arbitrary: a0 c0) (simp_all add: add.assoc)


lemma foldl_addItem_grouped:
  "foldl addItem [] ls
     = map (\<lambda>n. (n, sum_list (map CartItem.quantity (filter (\<lambda>l. name l = n) (countedLines ls))),
                    sum_list (map (\<lambda>l. price l * CartItem.quantity l)
                      (filter (\<lambda>l. name l = n) (countedLines ls)))))
         (first_keys (map name (countedLines ls)))"
proof -
  have "foldl addItem [] ls
      = foldl (\<lambda>ob it. upsert (0, 0)
            (\<lambda>(q, r). (q + CartItem.quantity it, r + price it * CartItem.quantity it)) ob (name it))
          [] (filter (\<lambda>l. \<not> inherited (name l)) ls)"
    by (rule foldl_skip_inherited) (simp_all add: addItem_skip addItem_upsert)
  then show ?thesis
    by (simp add: foldl_upsert foldl_pair_items countedLines_def)
qed

lemma foldl_addPayment_grouped:
  "foldl addPayment [] ts
     = map (\<lambda>m. (m, sum_list (map finalAmount (filter (\<lambda>t. paymentMethod t = m) (countedPayments ts))),
                    length (filter (\<lambda>t. paymentMethod t = m) (countedPayments ts))))
         (first_keys (map paymentMethod (countedPayments ts)))"
proof -
  have "foldl addPayment [] ts
      = foldl (\<lambda>ob t. upsert (0, 0) (\<lambda>(a, c). (a + finalAmount t, Suc c)) ob (paymentMethod t))
          [] (filter (\<lambda>t. \<not> inherited (paymentMethod t)) ts)"
    by (rule foldl_skip_inherited) (simp_all add: addPayment_skip addPayment_upsert)
  then show ?thesis
    by (simp add: foldl_upsert foldl_pair_payments countedPayments_def)
qed

lemma tally_step_upsert:
  "\<not> inherited (key t) \<Longrightarrow>
   tally_step key ob t
     = upsert (Num 0) (\<lambda>v. case v of Num x \<Rightarrow> Num (x + finalAmount t) | Text \<Rightarrow> Text) ob (key t)"
  by (cases "map_of ob (key t)")
    (auto simp: tally_step_def obj_get_def upsert_def obj_set_regular split: tally_val.splits)

lemma foldl_num:
  "foldl (\<lambda>v t. case v of Num x \<Rightarrow> Num (x + finalAmount t) | Text \<Rightarrow> Text) (Num a) xs
     = Num (a + sum_list (map finalAmount xs))"
  by (induction xs arbitrary: a) (simp_all add: add.assoc)

lemma tally_grouped:
  assumes "\<forall>t \<in> set ts. \<not> inherited (key t)"
  shows "tally key ts = map (\<lambda>k. (k, Num (total key ts k))) (first_keys (map key ts))"
proof -
  have "foldl (tally_step key) [] ts
      = foldl (\<lambda>ob t. upsert (Num 0)
            (\<lambda>v. case v of Num x \<Rightarrow> Num (x + finalAmount t) | Text \<Rightarrow> Text) ob (key t)) [] ts"
    using assms by (intro foldl_cong) (simp_all add: tally_step_upsert)
  then show ?thesis
    by (simp add: tally_def foldl_upsert foldl_num total_def)
qed

lemma insort_key_map:
  "insort_key f (g x) (map g ys) = map g (insort_key (\<lambda>y. f (g y)) x ys)"
  by (induction ys) auto

lemma sort_key_map: "sort_key f (map g xs) = map g (sort_key (\<lambda>y. f (g y)) xs)"
  by (induction xs) (auto simp: insort_key_map)

lemma enum_order_map: "enum_order key (map g xs) = map g (enum_order (\<lambda>y. key (g y)) xs)"
  by (simp add: enum_order_def sort_key_map filter_map comp_def)

lemma sort_desc_map: "sort_desc f (map g xs) = map g (sort_desc (\<lambda>y. f (g y)) xs)"
  by (simp add: sort_desc_def sort_key_map)

subsection \<open>The head of a stable descending sort\<close>

lemma sort_key_Cons_decomp:
  fixes g :: "'a \<Rightarrow> 'b::linorder"
  assumes "sort_key g xs = y # ys"
  shows "\<exists>us vs. xs = us @ y # vs \<and> (\<forall>u \<in> set us. g y < g u) \<and> (\<forall>v \<in> set vs. g y \<le> g v)"
proof -
  have "sorted (map g (y # ys))"
    using sorted_sort_key [of g xs] assms by simp
  then have "\<forall>z \<in> set (y # ys). g y \<le> g z"
    by auto
  then have "\<forall>z \<in> set (sort_key g xs). g y \<le> g z"
    by (simp only: assms)
  then have le: "\<forall>x \<in> set xs. g y \<le> g x"
    by simp
  have "filter (\<lambda>z. g z = g y) xs = filter (\<lambda>z. g z = g y) (y # ys)"
    using sort_key_stable [of g "g y" xs] assms by simp
  then have "filter (\<lambda>z. g z = g y) xs = y # filter (\<lambda>z. g z = g y) ys"
    by simp
  then obtain us vs where xs: "xs = us @ y # vs" and us: "\<forall>u \<in> set us. g u \<noteq> g y"
    unfolding filter_eq_Cons_iff by blast
  have "\<forall>u \<in> set us. g y < g u"
    using le us xs by (simp add: order_less_le) metis
  moreover have "\<forall>v \<in> set vs. g y \<le> g v"
    using le xs by simp
  ultimately show ?thesis
    using xs by blast
qed

lemma foldl_best_keep:
  "\<forall>v \<in> set vs. f v \<le> f b \<Longrightarrow> foldl (\<lambda>best y. if f best < f y then y else best) b vs = b"
  for f :: "'a \<Rightarrow> rat"
  by (induction vs) auto

lemma foldl_best_skip:
  "f b < f y \<Longrightarrow> \<forall>u \<in> set us. f u < f y \<Longrightarrow>
   foldl (\<lambda>best y. if f best < f y then y else best) b (us @ y # vs)
     = foldl (\<lambda>best y. if f best < f y then y else best) y vs"
  for f :: "'a \<Rightarrow> rat"
  by (induction us arbitrary: b) auto

lemma first_max_decomp:
  fixes f :: "'a \<Rightarrow> rat"
  assumes "\<forall>u \<in> set us. f u < f y" and "\<forall>v \<in> set vs. f v \<le> f y"
  shows "first_max f (us @ y # vs) = Some y"
proof (cases us)
  case Nil
  then show ?thesis using assms by (simp add: foldl_best_keep)
next
  case (Cons u us')
  then show ?thesis
    using assms foldl_best_skip [of f u y us' vs] by (simp add: foldl_best_keep)
qed

lemma foldl_best_char:
  fixes f :: "'a \<Rightarrow> rat"
  shows "foldl (\<lambda>best y. if f best < f y then y else best) b xs = k \<Longrightarrow>
     (k = b \<and> (\<forall>v \<in> set xs. f v \<le> f b))
     \<or> (\<exists>us vs. xs = us @ k # vs \<and> f b < f k
            \<and> (\<forall>u \<in> set us. f u < f k) \<and> (\<forall>v \<in> set vs. f v \<le> f k))"
proof (induction xs arbitrary: b)
  case Nil
  then show ?case by simp
next
  case (Cons x xs)
  show ?case
  proof (cases "f b < f x")
    case True
    with Cons.prems have "foldl (\<lambda>best y. if f best < f y then y else best) x xs = k"
      by simp
    from Cons.IH [OF this] show ?thesis
    proof
      assume "k = x \<and> (\<forall>v \<in> set xs. f v \<le> f x)"
      with True have "x # xs = [] @ k # xs \<and> f b < f k
          \<and> (\<forall>u \<in> set []. f u < f k) \<and> (\<forall>v \<in> set xs. f v \<le> f k)"
        by simp
      then show ?thesis by blast
    next
      assume "\<exists>us vs. xs = us @ k # vs \<and> f x < f k
          \<and> (\<forall>u \<in> set us. f u < f k) \<and> (\<forall>v \<in> set vs. f v \<le> f k)"
      then obtain us vs where *: "xs = us @ k # vs" "f x < f k"
          "\<forall>u \<in> set us. f u < f k" "\<forall>v \<in> set vs. f v \<le> f k"
        by blast
      with True have "x # xs = (x # us) @ k # vs \<and> f b < f k
          \<and> (\<forall>u \<in> set (x # us). f u < f k) \<and> (\<forall>v \<in> set vs. f v \<le> f k)"
        by simp
      then show ?thesis by blast
    qed
  next
    case False
    with Cons.prems have "foldl (\<lambda>best y. if f best < f y then y else best) b xs = k"
      by simp
    from Cons.IH [OF this] show ?thesis
    proof
      assume "k = b \<and> (\<forall>v \<in> set xs. f v \<le> f b)"
      with False show ?thesis by simp
    next
      assume "\<exists>us vs. xs = us @ k # vs \<and> f b < f k
          \<and> (\<forall>u \<in> set us. f u < f k) \<and> (\<forall>v \<in> set vs. f v \<le> f k)"
      then obtain us vs where *: "xs = us @ k # vs" "f b < f k"
          "\<forall>u \<in> set us. f u < f k" "\<forall>v \<in> set vs. f v \<le> f k"
        by blast
      with False have "x # xs = (x # us) @ k # vs \<and> f b < f k
          \<and> (\<forall>u \<in> set (x # us). f u < f k) \<and> (\<forall>v \<in> set vs. f v \<le> f k)"
        by simp
      then show ?thesis by blast
    qed
  qed
qed

lemma first_max_Some_D:
  fixes f :: "'a \<Rightarrow> rat"
  assumes "first_max f xs = Some k"
  shows "\<exists>us vs. xs = us @ k # vs \<and> (\<forall>u \<in> set us. f u < f k) \<and> (\<forall>v \<in> set vs. f v \<le> f k)"
proof (cases xs)
  case Nil
  with assms show ?thesis by simp
next
  case (Cons x xs')
  with assms have "foldl (\<lambda>best y. if f best < f y then y else best) x xs' = k"
    by simp
  from foldl_best_char [OF this] show ?thesis
  proof
    assume "k = x \<and> (\<forall>v \<in> set xs'. f v \<le> f x)"
    with Cons have "xs = [] @ k # xs' \<and> (\<forall>u \<in> set []. f u < f k) \<and> (\<forall>v \<in> set xs'. f v \<le> f k)"
      by simp
    then show ?thesis by blast
  next
    assume "\<exists>us vs. xs' = us @ k # vs \<and> f x < f k
        \<and> (\<forall>u \<in> set us. f u < f k) \<and> (\<forall>v \<in> set vs. f v \<le> f k)"
    then obtain us vs where "xs' = us @ k # vs" "f x < f k"
        "\<forall>u \<in> set us. f u < f k" "\<forall>v \<in> set vs. f v \<le> f k"
      by blast
    with Cons have "xs = (x # us) @ k # vs \<and> (\<forall>u \<in> set (x # us). f u < f k)
        \<and> (\<forall>v \<in> set vs. f v \<le> f k)"
      by simp
    then show ?thesis by blast
  qed
qed

lemma hd_sort_desc:
  "(case sort_desc f xs of [] \<Rightarrow> None | y # _ \<Rightarrow> Some y) = first_max f xs"
proof (cases "sort_desc f xs")
  case Nil
  then have "xs = []"
    by (metis length_sort sort_desc_def length_0_conv)
  then show ?thesis by (simp add: sort_desc_def)
next
  case (Cons y ys)
  then obtain us vs where "xs = us @ y # vs" "\<forall>u \<in> set us. f u < f y" "\<forall>v \<in> set vs. f v \<le> f y"
    using sort_key_Cons_decomp [of "\<lambda>x. - f x" xs y ys] by (auto simp: sort_desc_def)
  then show ?thesis
    using Cons by (simp add: first_max_decomp)
qed

lemma enum_order_no_index:
  "\<forall>x \<in> set xs. \<not> is_array_index (key x) \<Longrightarrow> enum_order key xs = xs"
  by (simp add: enum_order_def filter_empty_conv)

lemma topKey_tally:
  assumes "\<forall>t \<in> set ts. \<not> inherited (key t)"
  shows "topKey engine (tally key ts)
     = (case first_max (total key ts) (enum_order (\<lambda>k. k) (first_keys (map key ts))) of
          None \<Rightarrow> ''None''
        | Some k \<Rightarrow> if k = [] then ''None'' else k)"
proof -
  let ?es = "enum_order (\<lambda>k. k) (first_keys (map key ts))"
  let ?entries = "map (\<lambda>k. (k, Num (total key ts k))) ?es"
  have entries: "Object_entries (tally key ts) = ?entries"
    using assms by (simp add: tally_grouped Object_entries_def enum_order_map)
  have "list_all is_num ?entries"
    by (simp add: list_all_iff is_num_def)
  then have "sortEntries engine ?entries = sort_desc num_of ?entries"
    by (simp add: sortEntries_def)
  also have "\<dots> = map (\<lambda>k. (k, Num (total key ts k))) (sort_desc (total key ts) ?es)"
    by (simp add: sort_desc_map num_of_def)
  finally have "topKey engine (tally key ts)
          = (case sort_desc (total key ts) ?es of [] \<Rightarrow> ''None''
             | k # _ \<Rightarrow> if k = [] then ''None'' else k)"
    by (simp add: topKey_def entries split: list.split)
  also have "\<dots> = (case (case sort_desc (total key ts) ?es of [] \<Rightarrow> None | y # _ \<Rightarrow> Some y) of
          None \<Rightarrow> ''None'' | Some k \<Rightarrow> if k = [] then ''None'' else k)"
    by (simp split: list.split)
  finally show ?thesis
    by (simp only: hd_sort_desc)
qed

lemmas eval_stats = spec_top_def enum_top_def first_keys_def total_def exampleTx_def
  calculateStats_def Let_def tally_def tally_step_def obj_get_def obj_set_def inherited_def
  topKey_def sortEntries_def is_num_def num_of_def all_equal_def Object_entries_def
  enum_order_def sort_desc_def is_array_index_def is_digit_def index_value_def sumFinal_def
  js_div_def keepOrder_def

text \<open>
  C7 (as amended). For a sequence in which no key names a member of \<^verbatim>\<open>Object.prototype\<close>,
  \<^verbatim>\<open>topMembershipType\<close> and \<^verbatim>\<open>topPaymentMethod\<close> are the key whose summed \<^verbatim>\<open>finalAmount\<close>
  over all transactions, refunds added with positive sign, is highest; among equal totals
  the first key in the enumeration order of \<^verbatim>\<open>Object.entries\<close> wins (array-index keys in
  ascending numeric order, then the other keys as first encountered), and when the winning
  key is the empty string the result is \<^verbatim>\<open>None\<close>. A non-empty sequence has a winning key;
  when no key is an array index the order is the order of first encounter.
\<close>

theorem C7_top_keys:
  "((\<forall>t \<in> set ts. \<not> inherited (membershipType t)) \<longrightarrow>
      topMembershipType (calculateStats engine ts)
        = (case enum_top membershipType ts of
             None \<Rightarrow> ''None'' | Some k \<Rightarrow> if k = [] then ''None'' else k))
   \<and> ((\<forall>t \<in> set ts. \<not> inherited (paymentMethod t)) \<longrightarrow>
      topPaymentMethod (calculateStats engine ts)
        = (case enum_top paymentMethod ts of
             None \<Rightarrow> ''None'' | Some k \<Rightarrow> if k = [] then ''None'' else k))
   \<and> (\<forall>key. ts \<noteq> [] \<longrightarrow> (\<exists>k. enum_top key ts = Some k))
   \<and> (\<forall>key k. enum_top key ts = Some k \<longrightarrow>
         (\<exists>us vs. enum_order (\<lambda>k. k) (first_keys (map key ts)) = us @ k # vs
            \<and> (\<forall>u \<in> set us. total key ts u < total key ts k)
            \<and> (\<forall>v \<in> set vs. total key ts v \<le> total key ts k)))
   \<and> (\<forall>key. (\<forall>t \<in> set ts. \<not> is_array_index (key t)) \<longrightarrow> enum_top key ts = spec_top key ts)"
proof -
  have nonempty: "\<exists>k. enum_top key ts = Some k" if "ts \<noteq> []" for key
  proof -
    have "set (enum_order (\<lambda>k. k) (first_keys (map key ts))) = key ` set ts"
      by (auto simp: enum_order_def)
    with that have "enum_order (\<lambda>k. k) (first_keys (map key ts)) \<noteq> []"
      by (metis empty_set image_is_empty set_empty)
    then show ?thesis
      by (cases "enum_order (\<lambda>k. k) (first_keys (map key ts))") (simp_all add: enum_top_def)
  qed
  have same: "enum_top key ts = spec_top key ts"
    if "\<forall>t \<in> set ts. \<not> is_array_index (key t)" for key
  proof -
    from that have "\<forall>k \<in> set (first_keys (map key ts)). \<not> is_array_index k"
      by auto
    then show ?thesis
      by (simp add: enum_top_def spec_top_def enum_order_no_index)
  qed
  have decomp: "\<exists>us vs. enum_order (\<lambda>k. k) (first_keys (map key ts)) = us @ k # vs
            \<and> (\<forall>u \<in> set us. total key ts u < total key ts k)
            \<and> (\<forall>v \<in> set vs. total key ts v \<le> total key ts k)"
    if "enum_top key ts = Some k" for key k
    using that unfolding enum_top_def by (rule first_max_Some_D)
  have "(\<forall>t \<in> set ts. \<not> inherited (membershipType t)) \<longrightarrow>
      topMembershipType (calculateStats engine ts)
        = (case enum_top membershipType ts of
             None \<Rightarrow> ''None'' | Some k \<Rightarrow> if k = [] then ''None'' else k)"
    by (simp add: calculateStats_def Let_def topKey_tally enum_top_def)
  moreover have "(\<forall>t \<in> set ts. \<not> inherited (paymentMethod t)) \<longrightarrow>
      topPaymentMethod (calculateStats engine ts)
        = (case enum_top paymentMethod ts of
             None \<Rightarrow> ''None'' | Some k \<Rightarrow> if k = [] then ''None'' else k)"
    by (simp add: calculateStats_def Let_def topKey_tally enum_top_def)
  ultimately show ?thesis
    using nonempty same decomp by blast
qed

theorem C7_top_keys_witness:
  "tiedPayments \<noteq> []
   \<and> list_all (\<lambda>t. \<not> inherited (paymentMethod t)) tiedPayments
   \<and> enum_top paymentMethod tiedPayments = Some ''1664''
   \<and> topPaymentMethod (calculateStats keepOrder tiedPayments) = ''1664''
   \<and> list_all (\<lambda>t. \<not> inherited (membershipType t)) tiedPayments
   \<and> list_all (\<lambda>t. \<not> is_array_index (membershipType t)) tiedPayments
   \<and> spec_top membershipType tiedPayments = Some ''VIP''
   \<and> topMembershipType (calculateStats keepOrder tiedPayments) = ''VIP''"
  using C7_top_keys [of tiedPayments keepOrder]
  by (simp add: tiedPayments_def eval_stats)

text \<open>
  The rule of C7 as the specification states it fails on three inputs: a walk-in whose
  membership type is the empty string has the highest total and the result is \<^verbatim>\<open>None\<close>;
  of two payment methods with equal totals, \<^verbatim>\<open>cash\<close> met first and \<^verbatim>\<open>1664\<close> second, the
  result is \<^verbatim>\<open>1664\<close>; a membership type named \<^verbatim>\<open>constructor\<close> has the highest total, its
  entry is a string, and the result is \<^verbatim>\<open>VIP\<close>.
\<close>

theorem C7_first_encountered_counterexample:
  "walkIns \<noteq> []
   \<and> spec_top membershipType walkIns = Some []
   \<and> topMembershipType (calculateStats keepOrder walkIns) = ''None''
   \<and> tiedPayments \<noteq> []
   \<and> spec_top paymentMethod tiedPayments = Some ''cash''
   \<and> topPaymentMethod (calculateStats keepOrder tiedPayments) = ''1664''
   \<and> namedConstructor \<noteq> []
   \<and> spec_top membershipType namedConstructor = Some ''constructor''
   \<and> topMembershipType (calculateStats keepOrder namedConstructor) = ''VIP''"
  by (simp add: walkIns_def tiedPayments_def namedConstructor_def eval_stats)

subsection \<open>Daily reports\<close>

lemma regular_not_fails: "regular ext t \<Longrightarrow> \<not> fails ext t"
  by (simp add: regular_def fails_def split: payload.splits)

lemma itemLoop_tainted:
  "list_all (\<lambda>t. \<not> fails ext t) ts \<Longrightarrow> itemLoop ext None ts = Inr None"
  by (induction ts) (auto simp: fails_def split: payload.splits)

lemma itemLoop_regular:
  "list_all (regular ext) ts \<Longrightarrow>
   itemLoop ext (Some c) ts = Inr (Some (foldl addItem c (concat (map (itemsOf ext) ts))))"
  by (induction ts arbitrary: c) (auto simp: regular_def itemsOf_def split: payload.splits)

lemma itemLoop_irregular:
  "list_all (\<lambda>t. \<not> fails ext t) ts \<Longrightarrow> \<not> list_all (regular ext) ts \<Longrightarrow>
   itemLoop ext acc ts = Inr None"
  by (induction ts arbitrary: acc)
    (auto simp: regular_def fails_def itemLoop_tainted split: payload.splits)

lemma itemLoop_Inr_ok:
  "itemLoop ext acc ts = Inr x \<Longrightarrow> list_all (\<lambda>t. \<not> fails ext t) ts"
proof (induction ts arbitrary: acc)
  case Nil
  then show ?case by simp
next
  case (Cons t ts)
  show ?case
  proof (cases "parseItems ext t")
    case (Lines its)
    with Cons.prems have "itemLoop ext (map_option (\<lambda>c. foldl addItem c its) acc) ts = Inr x"
      by simp
    then have "list_all (\<lambda>t. \<not> fails ext t) ts"
      by (rule Cons.IH)
    with Lines show ?thesis
      by (simp add: fails_def)
  next
    case (Fails err)
    with Cons.prems show ?thesis
      by simp
  next
    case Irregular
    with Cons.prems have "itemLoop ext None ts = Inr x"
      by simp
    then have "list_all (\<lambda>t. \<not> fails ext t) ts"
      by (rule Cons.IH)
    with Irregular show ?thesis
      by (simp add: fails_def)
  qed
qed

lemma itemLoop_ok:
  assumes "list_all (\<lambda>t. \<not> fails ext t) ts"
  shows "itemLoop ext (Some []) ts
     = Inr (if list_all (regular ext) ts
            then Some (foldl addItem [] (concat (map (itemsOf ext) ts))) else None)"
  using assms by (simp add: itemLoop_regular itemLoop_irregular)

lemma topItemsOf_grouped:
  "topItemsOf (foldl addItem [] ls) = take 5 (sort_desc revenue (itemEntries (countedLines ls)))"
  by (simp add: topItemsOf_def foldl_addItem_grouped Object_entries_def enum_order_map
      itemEntries_def comp_def)

lemma paymentMethodsOf_grouped:
  "paymentMethodsOf (foldl addPayment [] txs)
     = sort_desc amount (paymentEntries (countedPayments txs))"
  by (simp add: paymentMethodsOf_def foldl_addPayment_grouped Object_entries_def enum_order_map
      paymentEntries_def comp_def)

lemma dayReport_ok: "dayOk rt ds \<Longrightarrow> dayReport rt ds = Inr (reportOf rt ds)"
  by (simp add: dayReport_def Let_def dayOk_def dayRegular_def daySales_def itemLoop_ok
      reportOf_def sumFinal_sum_list topItemsOf_grouped paymentMethodsOf_grouped dayLines_def)

lemma dayReport_Inr_ok: "dayReport rt ds = Inr r \<Longrightarrow> dayOk rt ds"
  by (auto simp: dayReport_def Let_def dayOk_def daySales_def split: sum.splits
      dest: itemLoop_Inr_ok)

lemma dayReport_Inr_iff: "dayReport rt ds = Inr r \<longleftrightarrow> dayOk rt ds \<and> r = reportOf rt ds"
  using dayReport_ok dayReport_Inr_ok by (metis sum.inject(2))

lemma dayReport_fails: "\<not> dayOk rt ds \<Longrightarrow> \<exists>err. dayReport rt ds = Inl err"
  using dayReport_Inr_ok by (cases "dayReport rt ds") auto

lemma visits_Nil: "visits rt d e = Some [] \<longleftrightarrow> \<not> d \<le> e"
  by (subst visits.simps) (auto simp: bind_eq_Some_conv)

lemma visits_Cons:
  "visits rt d e = Some (x # ds) \<longleftrightarrow> d \<le> e \<and> x = d \<and> visits rt (nextDay rt d) e = Some ds"
  by (subst visits.simps) (auto simp: bind_eq_Some_conv)

lemma dayLoop_visits:
  "visits rt d e = Some ds \<Longrightarrow> list_all (\<lambda>t. dayOk rt (dateStr rt t)) ds \<Longrightarrow>
   dayLoop rt d e acc = Some (Inr (acc @ map (\<lambda>t. reportOf rt (dateStr rt t)) ds))"
proof (induction ds arbitrary: d acc)
  case Nil
  then have "\<not> d \<le> e"
    by (simp add: visits_Nil)
  then show ?case
    by (subst dayLoop.simps) simp
next
  case (Cons x ds)
  then have d: "d \<le> e" "x = d" and rest: "visits rt (nextDay rt d) e = Some ds"
    by (simp_all add: visits_Cons)
  from Cons.prems d have ok: "dayReport rt (dateStr rt d) = Inr (reportOf rt (dateStr rt d))"
    by (simp add: dayReport_ok)
  from Cons.prems have "list_all (\<lambda>t. dayOk rt (dateStr rt t)) ds"
    by simp
  from Cons.IH [OF rest this] d ok show ?case
    by (subst dayLoop.simps) simp
qed

lemma dayLoop_visits_fails:
  "visits rt d e = Some ds \<Longrightarrow> \<not> list_all (\<lambda>t. dayOk rt (dateStr rt t)) ds \<Longrightarrow>
   \<exists>err. dayLoop rt d e acc = Some (Inl err)"
proof (induction ds arbitrary: d acc)
  case Nil
  then show ?case by simp
next
  case (Cons x ds)
  then have d: "d \<le> e" "x = d" and rest: "visits rt (nextDay rt d) e = Some ds"
    by (simp_all add: visits_Cons)
  show ?case
  proof (cases "dayOk rt (dateStr rt d)")
    case True
    then have ok: "dayReport rt (dateStr rt d) = Inr (reportOf rt (dateStr rt d))"
      by (rule dayReport_ok)
    from True Cons.prems d have "\<not> list_all (\<lambda>t. dayOk rt (dateStr rt t)) ds"
      by simp
    from Cons.IH [OF rest this] d ok show ?thesis
      by (subst dayLoop.simps) simp
  next
    case False
    then obtain err where "dayReport rt (dateStr rt d) = Inl err"
      using dayReport_fails by blast
    with d show ?thesis
      by (subst dayLoop.simps) simp
  qed
qed

lemma dayLoop_Inr_visits:
  assumes "dayLoop rt d e acc = Some res"
  shows "case res of
      Inl _ \<Rightarrow> True
    | Inr rs \<Rightarrow> \<exists>ds. visits rt d e = Some ds
          \<and> list_all (\<lambda>t. dayOk rt (dateStr rt t)) ds
          \<and> rs = acc @ map (\<lambda>t. reportOf rt (dateStr rt t)) ds"
proof (rule dayLoop.raw_induct
    [where P = "\<lambda>rt d e acc res. case res of
      Inl _ \<Rightarrow> True
    | Inr rs \<Rightarrow> \<exists>ds. visits rt d e = Some ds
          \<and> list_all (\<lambda>t. dayOk rt (dateStr rt t)) ds
          \<and> rs = acc @ map (\<lambda>t. reportOf rt (dateStr rt t)) ds", OF _ assms])
  fix loop :: "'a runtime \<Rightarrow> int \<Rightarrow> int \<Rightarrow> DailyReport list \<Rightarrow> (error + DailyReport list) option"
    and rt d e acc res
  assume IH: "\<And>rt d e acc res. loop rt d e acc = Some res \<Longrightarrow>
      (case res of
        Inl _ \<Rightarrow> True
      | Inr rs \<Rightarrow> \<exists>ds. visits rt d e = Some ds
            \<and> list_all (\<lambda>t. dayOk rt (dateStr rt t)) ds
            \<and> rs = acc @ map (\<lambda>t. reportOf rt (dateStr rt t)) ds)"
    and body: "(if d \<le> e
      then case dayReport rt (dateStr rt d) of
             Inl err \<Rightarrow> Some (Inl err)
           | Inr r \<Rightarrow> loop rt (nextDay rt d) e (acc @ [r])
      else Some (Inr acc)) = Some res"
  show "case res of
      Inl _ \<Rightarrow> True
    | Inr rs \<Rightarrow> \<exists>ds. visits rt d e = Some ds
          \<and> list_all (\<lambda>t. dayOk rt (dateStr rt t)) ds
          \<and> rs = acc @ map (\<lambda>t. reportOf rt (dateStr rt t)) ds"
  proof (cases res)
    case (Inl err)
    then show ?thesis by simp
  next
    case (Inr rs)
    show ?thesis
    proof (cases "d \<le> e")
      case False
      with body Inr have "rs = acc"
        by simp
      moreover from False have "visits rt d e = Some []"
        by (simp add: visits_Nil)
      ultimately show ?thesis
        using Inr by simp
    next
      case True
      with body Inr obtain r where r: "dayReport rt (dateStr rt d) = Inr r"
        and rest: "loop rt (nextDay rt d) e (acc @ [r]) = Some (Inr rs)"
        by (auto split: sum.splits)
      from IH [OF rest] obtain ds where ds: "visits rt (nextDay rt d) e = Some ds"
        and ok: "list_all (\<lambda>t. dayOk rt (dateStr rt t)) ds"
        and rs: "rs = (acc @ [r]) @ map (\<lambda>t. reportOf rt (dateStr rt t)) ds"
        by auto
      from r have rd: "dayOk rt (dateStr rt d)" "r = reportOf rt (dateStr rt d)"
        by (simp_all add: dayReport_Inr_iff)
      from True ds have "visits rt d e = Some (d # ds)"
        by (simp add: visits_Cons)
      with ok rs rd show ?thesis
        using Inr by simp
    qed
  qed
qed

lemma dayLoop_Inr_iff:
  "dayLoop rt d e acc = Some (Inr rs) \<longleftrightarrow>
     (\<exists>ds. visits rt d e = Some ds
        \<and> list_all (\<lambda>t. dayOk rt (dateStr rt t)) ds
        \<and> rs = acc @ map (\<lambda>t. reportOf rt (dateStr rt t)) ds)"
  using dayLoop_Inr_visits [of rt d e acc "Inr rs"] dayLoop_visits [of rt d e _ acc]
  by auto

lemma loadDailyReports_Inr_iff:
  "loadDailyReports rt s e = Some (Inr reports) \<longleftrightarrow>
     (\<exists>ds. visits rt (s * msPerDay) (e * msPerDay) = Some ds
        \<and> list_all (\<lambda>t. dayOk rt (dateStr rt t)) ds
        \<and> reports = map (\<lambda>t. reportOf rt (dateStr rt t)) (rev ds))"
proof -
  have "loadDailyReports rt s e = Some (Inr reports) \<longleftrightarrow>
      (\<exists>rs. dayLoop rt (s * msPerDay) (e * msPerDay) [] = Some (Inr rs) \<and> reports = rev rs)"
    by (auto simp: loadDailyReports_def split: option.splits sum.splits)
  then show ?thesis
    by (auto simp: dayLoop_Inr_iff rev_map)
qed

lemma loadDailyReports_returns:
  "visits rt (s * msPerDay) (e * msPerDay) = Some ds \<Longrightarrow> \<exists>res. loadDailyReports rt s e = Some res"
proof (cases "list_all (\<lambda>t. dayOk rt (dateStr rt t)) ds")
  case True
  assume "visits rt (s * msPerDay) (e * msPerDay) = Some ds"
  from dayLoop_visits [OF this True, of "[]"] show ?thesis
    by (simp add: loadDailyReports_def)
next
  case False
  assume "visits rt (s * msPerDay) (e * msPerDay) = Some ds"
  from dayLoop_visits_fails [OF this False, of "[]"] show ?thesis
    by (auto simp: loadDailyReports_def)
qed

text \<open>The days of a range on a host whose offset from UTC does not change in the range.\<close>

lemma nextDay_fixed:
  "offsetAtUTC rt d = c \<Longrightarrow> offsetAtLocal rt (d + c + msPerDay) = c \<Longrightarrow> nextDay rt d = d + msPerDay"
  by (simp add: nextDay_def Let_def)

lemma visits_fixed:
  assumes fixed: "\<forall>t. s * msPerDay \<le> t \<and> t \<le> e * msPerDay \<longrightarrow>
      offsetAtUTC rt t = c \<and> offsetAtLocal rt (t + c + msPerDay) = c"
  shows "s \<le> d \<Longrightarrow> visits rt (d * msPerDay) (e * msPerDay) = Some (map (\<lambda>k. k * msPerDay) [d..e])"
proof (induction "nat (e + 1 - d)" arbitrary: d)
  case 0
  then have "\<not> d \<le> e"
    by simp
  then show ?case
    by (simp add: visits_Nil msPerDay_def)
next
  case (Suc n)
  then have de: "d \<le> e"
    by simp
  then have "s * msPerDay \<le> d * msPerDay \<and> d * msPerDay \<le> e * msPerDay"
    using Suc.prems by (simp add: msPerDay_def)
  with fixed have "nextDay rt (d * msPerDay) = d * msPerDay + msPerDay"
    by (intro nextDay_fixed) auto
  then have next_eq: "nextDay rt (d * msPerDay) = (d + 1) * msPerDay"
    by (simp add: algebra_simps)
  have "n = nat (e + 1 - (d + 1))"
    using Suc.hyps(2) by simp
  from Suc.hyps(1) [OF this] Suc.prems
  have "visits rt ((d + 1) * msPerDay) (e * msPerDay) = Some (map (\<lambda>k. k * msPerDay) [d + 1..e])"
    by simp
  with de next_eq show ?case
    by (subst visits.simps) (simp add: upto_rec1 [of d e] msPerDay_def)
qed

lemma dateStr_day: "dateStr rt (k * msPerDay) = isoDate rt k"
  by (simp add: dateStr_def msPerDay_def)







lemma set_enum_order [simp]: "set (enum_order key xs) = set xs"
  by (auto simp: enum_order_def)








lemma date_reportOf: "date (reportOf rt ds) = ds"
  by (simp add: reportOf_def)

lemma length_reports:
  "s \<le> e \<Longrightarrow> length (map f (rev [s..e])) = nat (e - s) + 1"
  by simp

lemma nth_reports:
  assumes "s \<le> d" and "d \<le> e"
  shows "map f (rev [s..e]) ! nat (e - d) = f d"
proof -
  have lt: "nat (e - d) < length [s..e]"
    using assms by simp
  have "rev [s..e] ! nat (e - d) = [s..e] ! (length [s..e] - Suc (nat (e - d)))"
    using lt by (rule rev_nth)
  also have "length [s..e] - Suc (nat (e - d)) = nat (d - s)"
    using assms by simp
  also have "[s..e] ! nat (d - s) = s + int (nat (d - s))"
    using assms by (intro nth_upto) simp
  finally have "rev [s..e] ! nat (e - d) = d"
    using assms by simp
  then show ?thesis
    using lt by simp
qed

lemma reportOf_empty:
  "dayTransactions rt ds = [] \<Longrightarrow> dayCheckIns rt ds = [] \<Longrightarrow>
   reportOf rt ds = \<lparr> date = ds, DailyReport.totalSales = 0, DailyReport.totalRefunds = 0,
     DailyReport.netRevenue = 0, transactionCount = 0, memberCheckIns = 0, topItems = Some [],
     paymentMethods = [] \<rparr>"
  by (simp add: reportOf_def daySales_def dayLines_def dayRegular_def itemEntries_def
      paymentEntries_def countedLines_def countedPayments_def enum_order_def sort_desc_def)

lemma fails_iff: "fails ext t \<longleftrightarrow> (\<exists>err. parseItems ext t = Fails err)"
  by (cases "parseItems ext t") (simp_all add: fails_def)

lemma dayOk_iff:
  "dayOk rt ds \<longleftrightarrow>
     (\<forall>t \<in> set (dayTransactions rt ds). isRefund t = 0 \<longrightarrow>
        (\<forall>err. parseItems (parseJSON rt) t \<noteq> Fails err))"
  by (auto simp: dayOk_def daySales_def list_all_iff fails_iff)

lemma load_fixed:
  assumes "\<forall>t. s * msPerDay \<le> t \<and> t \<le> e * msPerDay \<longrightarrow>
      offsetAtUTC rt t = c \<and> offsetAtLocal rt (t + c + msPerDay) = c"
    and "\<forall>d \<in> {s..e}. dayOk rt (isoDate rt d)"
  shows "loadDailyReports rt s e = Some (Inr (map (\<lambda>k. reportOf rt (isoDate rt k)) (rev [s..e])))"
proof -
  have v: "visits rt (s * msPerDay) (e * msPerDay) = Some (map (\<lambda>k. k * msPerDay) [s..e])"
    using assms(1) by (rule visits_fixed) simp
  have "list_all (\<lambda>t. dayOk rt (dateStr rt t)) (map (\<lambda>k. k * msPerDay) [s..e])"
    using assms(2) by (simp add: list_all_iff dateStr_day)
  with v show ?thesis
    unfolding loadDailyReports_Inr_iff by (simp add: rev_map comp_def dateStr_day)
qed

lemmas eval_demo = demoRuntime_def demoParse_def beerTwo_def beerOne_def beerAndLager_def
  shotAndBeer_def beerObject_def truncated_def exampleTx_def onDay_def demoDate_def
  dayTransactions_def dayCheckIns_def parseItems_def JSON_parse_def dateStr_def nextDay_def
  msPerDay_def newYork_def

lemmas eval_report = dayReport_def Let_def addItem_def addPayment_def obj_get_def obj_set_def
  inherited_def topItemsOf_def paymentMethodsOf_def Object_entries_def enum_order_def
  sort_desc_def is_array_index_def is_digit_def index_value_def sumFinal_def
  loadDailyReports_def dayLoop.simps

lemma demo_days_ok:
  "list_all (\<lambda>d. dayOk demoRuntime (isoDate demoRuntime d)) [19723, 19724, 19725]"
  by (simp add: dayOk_def daySales_def fails_def eval_demo)

lemma demo_days_readable:
  "\<forall>d \<in> {19723..19725}. \<forall>t \<in> set (dayTransactions demoRuntime (isoDate demoRuntime d)).
      isRefund t = 0 \<longrightarrow> (\<forall>err. parseItems (parseJSON demoRuntime) t \<noteq> Fails err)"
proof -
  have "{19723..19725} = {19723, 19724, 19725 :: int}"
    by auto
  then show ?thesis
    using demo_days_ok unfolding dayOk_iff by simp
qed

lemma demo_fixed:
  "\<forall>t. s * msPerDay \<le> t \<and> t \<le> e * msPerDay \<longrightarrow>
     offsetAtUTC demoRuntime t = 0 \<and> offsetAtLocal demoRuntime (t + 0 + msPerDay) = 0"
  by (simp add: demoRuntime_def)


lemma demo_days: "[19723..19725] = [19723, 19724, 19725]"
  by (simp add: upto_rec1)

text \<open>
  C2 (as amended). For a range with \<open>startDate \<le> endDate\<close>, on a host whose offset from UTC
  is the same at every time of the range, and when no item payload of a sale of the range
  throws, \<^verbatim>\<open>loadDailyReports\<close> returns \<open>(endDate - startDate) + 1\<close> reports, one for each day
  of the range, the most recent day first; the report of a day without transactions and
  without check-ins has every number zero and both lists empty.
\<close>

theorem C2_daily_reports_range:
  assumes "s \<le> e"
    and "\<forall>t. s * msPerDay \<le> t \<and> t \<le> e * msPerDay \<longrightarrow>
           offsetAtUTC rt t = c \<and> offsetAtLocal rt (t + c + msPerDay) = c"
    and "\<forall>d \<in> {s..e}. \<forall>t \<in> set (dayTransactions rt (isoDate rt d)).
           isRefund t = 0 \<longrightarrow> (\<forall>err. parseItems (parseJSON rt) t \<noteq> Fails err)"
  shows "\<exists>reports. loadDailyReports rt s e = Some (Inr reports)
      \<and> length reports = nat (e - s) + 1
      \<and> map date reports = map (isoDate rt) (rev [s..e])
      \<and> (\<forall>d \<in> {s..e}. date (reports ! nat (e - d)) = isoDate rt d)
      \<and> (\<forall>d \<in> {s..e}.
            dayTransactions rt (isoDate rt d) = [] \<and> dayCheckIns rt (isoDate rt d) = [] \<longrightarrow>
            reports ! nat (e - d)
              = \<lparr> date = isoDate rt d, DailyReport.totalSales = 0,
                  DailyReport.totalRefunds = 0, DailyReport.netRevenue = 0,
                  transactionCount = 0, memberCheckIns = 0, topItems = Some [],
                  paymentMethods = [] \<rparr>)"
proof -
  let ?reports = "map (\<lambda>x. reportOf rt (isoDate rt x)) (rev [s..e])"
  have ok: "\<forall>x \<in> {s..e}. dayOk rt (isoDate rt x)"
    using assms(3) by (simp add: dayOk_iff)
  have load: "loadDailyReports rt s e = Some (Inr ?reports)"
    using assms(2) ok by (rule load_fixed)
  have len: "length ?reports = nat (e - s) + 1"
    using assms(1) by (rule length_reports)
  have dates: "map date ?reports = map (isoDate rt) (rev [s..e])"
    by (simp add: date_reportOf comp_def)
  have nth: "?reports ! nat (e - d) = reportOf rt (isoDate rt d)" if "d \<in> {s..e}" for d
    using that by (intro nth_reports) simp_all
  have day: "\<forall>d \<in> {s..e}. date (?reports ! nat (e - d)) = isoDate rt d"
    using nth by (simp add: date_reportOf)
  have zero: "\<forall>d \<in> {s..e}.
      dayTransactions rt (isoDate rt d) = [] \<and> dayCheckIns rt (isoDate rt d) = [] \<longrightarrow>
      ?reports ! nat (e - d)
        = \<lparr> date = isoDate rt d, DailyReport.totalSales = 0,
            DailyReport.totalRefunds = 0, DailyReport.netRevenue = 0,
            transactionCount = 0, memberCheckIns = 0, topItems = Some [],
            paymentMethods = [] \<rparr>"
    using nth reportOf_empty by metis
  from load len dates day zero show ?thesis
    by blast
qed

theorem C2_daily_reports_range_witness:
  "(19723::int) \<le> 19725
   \<and> offsetAtUTC demoRuntime = (\<lambda>t. 0) \<and> offsetAtLocal demoRuntime = (\<lambda>t. 0)
   \<and> list_all (\<lambda>d. dayOk demoRuntime (isoDate demoRuntime d)) [19723, 19724, 19725]
   \<and> (\<exists>reports. loadDailyReports demoRuntime 19723 19725 = Some (Inr reports)
         \<and> length reports = 3
         \<and> map date reports = [''2024-01-03'', ''2024-01-02'', ''2024-01-01'']
         \<and> reports ! 1
             = \<lparr> date = ''2024-01-02'', DailyReport.totalSales = 0,
                 DailyReport.totalRefunds = 0, DailyReport.netRevenue = 0,
                 transactionCount = 0, memberCheckIns = 0, topItems = Some [],
                 paymentMethods = [] \<rparr>)"
proof -
  have le: "(19723::int) \<le> 19725"
    by simp
  from C2_daily_reports_range [OF le demo_fixed demo_days_readable]
  obtain reports where load: "loadDailyReports demoRuntime 19723 19725 = Some (Inr reports)"
    and len: "length reports = nat (19725 - 19723) + 1"
    and dates: "map date reports = map (isoDate demoRuntime) (rev [19723..19725])"
    and zero: "\<forall>d \<in> {19723..19725}.
        dayTransactions demoRuntime (isoDate demoRuntime d) = []
          \<and> dayCheckIns demoRuntime (isoDate demoRuntime d) = [] \<longrightarrow>
        reports ! nat (19725 - d)
          = \<lparr> date = isoDate demoRuntime d, DailyReport.totalSales = 0,
              DailyReport.totalRefunds = 0, DailyReport.netRevenue = 0,
              transactionCount = 0, memberCheckIns = 0, topItems = Some [],
              paymentMethods = [] \<rparr>"
    by blast
  note demo_days_ok
  moreover have "offsetAtUTC demoRuntime = (\<lambda>t. 0)" "offsetAtLocal demoRuntime = (\<lambda>t. 0)"
    by (simp_all add: demoRuntime_def)
  moreover have "length reports = 3"
    using len by simp
  moreover have "map date reports = [''2024-01-03'', ''2024-01-02'', ''2024-01-01'']"
    using dates by (simp add: demo_days demoRuntime_def demoDate_def)
  moreover have "reports ! 1
      = \<lparr> date = ''2024-01-02'', DailyReport.totalSales = 0,
          DailyReport.totalRefunds = 0, DailyReport.netRevenue = 0,
          transactionCount = 0, memberCheckIns = 0, topItems = Some [],
          paymentMethods = [] \<rparr>"
    using zero [rule_format, of 19724] by (simp add: eval_demo)
  ultimately show ?thesis
    using le load by simp
qed

text \<open>
  C2 as the specification states it fails on the range 2024-11-02 to 2024-11-04 on a host in
  New York: the step of one local day over the end of daylight saving time lands one hour
  after the end of the range, and two reports are returned for the three days. It fails too
  on the one-day range 2024-01-04 to 2024-01-04: the day has a sale whose payload is cut off,
  and no list of reports is returned.
\<close>

theorem C2_range_counterexample:
  "(20029::int) \<le> 20031
   \<and> loadDailyReports newYork 20029 20031
       = Some (Inr [\<lparr> date = ''2024-11-03'', DailyReport.totalSales = 0,
                      DailyReport.totalRefunds = 0, DailyReport.netRevenue = 0,
                      transactionCount = 0, memberCheckIns = 0, topItems = Some [],
                      paymentMethods = [] \<rparr>,
                    \<lparr> date = ''2024-11-02'', DailyReport.totalSales = 0,
                      DailyReport.totalRefunds = 0, DailyReport.netRevenue = 0,
                      transactionCount = 0, memberCheckIns = 0, topItems = Some [],
                      paymentMethods = [] \<rparr>])
   \<and> (19726::int) \<le> 19726
   \<and> loadDailyReports demoRuntime 19726 19726 = Some (Inl SyntaxError)"
  by (simp add: eval_demo eval_report)

text \<open>
  C3 (as amended). \<^verbatim>\<open>loadDailyReports\<close> returns reports exactly when the loop of the days
  ends and no item payload of a sale of a visited date throws, be it \<^verbatim>\<open>JSON.parse\<close> that
  rejects the text or the loop over a value that is not an array of lines: one sale whose
  payload throws aborts all of it, and the call ends in the handler without reports. The
  payloads of refunds are never read, and an empty payload is read as the empty list of item
  lines. On a host whose offset from UTC is the same at every time of the range, the visited
  dates are the days of the range.
\<close>

theorem C3_throwing_payload_aborts:
  "((\<exists>reports. loadDailyReports rt s e = Some (Inr reports)) \<longleftrightarrow>
      (\<exists>ds. visits rt (s * msPerDay) (e * msPerDay) = Some ds
         \<and> (\<forall>d \<in> set ds. \<forall>t \<in> set (dayTransactions rt (dateStr rt d)).
               isRefund t = 0 \<longrightarrow> (\<forall>err. parseItems (parseJSON rt) t \<noteq> Fails err))))
   \<and> (visits rt (s * msPerDay) (e * msPerDay) = Some ds
        \<and> (\<exists>d \<in> set ds. \<exists>t \<in> set (dayTransactions rt (dateStr rt d)).
              isRefund t = 0 \<and> (\<exists>err. parseItems (parseJSON rt) t = Fails err)) \<longrightarrow>
      (\<exists>err. loadDailyReports rt s e = Some (Inl err)))
   \<and> (items t = [] \<longrightarrow> parseItems ext t = Lines [])
   \<and> ((\<forall>t. s * msPerDay \<le> t \<and> t \<le> e * msPerDay \<longrightarrow>
          offsetAtUTC rt t = c \<and> offsetAtLocal rt (t + c + msPerDay) = c) \<longrightarrow>
      visits rt (s * msPerDay) (e * msPerDay) = Some (map (\<lambda>k. k * msPerDay) [s..e]))"
proof (intro conjI impI)
  show "(\<exists>reports. loadDailyReports rt s e = Some (Inr reports)) \<longleftrightarrow>
      (\<exists>ds. visits rt (s * msPerDay) (e * msPerDay) = Some ds
         \<and> (\<forall>d \<in> set ds. \<forall>t \<in> set (dayTransactions rt (dateStr rt d)).
               isRefund t = 0 \<longrightarrow> (\<forall>err. parseItems (parseJSON rt) t \<noteq> Fails err)))"
    by (simp add: loadDailyReports_Inr_iff list_all_iff dayOk_iff)
next
  assume a: "visits rt (s * msPerDay) (e * msPerDay) = Some ds
        \<and> (\<exists>d \<in> set ds. \<exists>t \<in> set (dayTransactions rt (dateStr rt d)).
              isRefund t = 0 \<and> (\<exists>err. parseItems (parseJSON rt) t = Fails err))"
  then have "\<not> list_all (\<lambda>t. dayOk rt (dateStr rt t)) ds"
    by (auto simp: list_all_iff dayOk_iff)
  with a obtain err where "dayLoop rt (s * msPerDay) (e * msPerDay) [] = Some (Inl err)"
    using dayLoop_visits_fails by blast
  then show "\<exists>err. loadDailyReports rt s e = Some (Inl err)"
    by (simp add: loadDailyReports_def)
next
  assume "items t = []"
  then show "parseItems ext t = Lines []"
    by (simp add: parseItems_def JSON_parse_def)
next
  assume "\<forall>t. s * msPerDay \<le> t \<and> t \<le> e * msPerDay \<longrightarrow>
          offsetAtUTC rt t = c \<and> offsetAtLocal rt (t + c + msPerDay) = c"
  then show "visits rt (s * msPerDay) (e * msPerDay) = Some (map (\<lambda>k. k * msPerDay) [s..e])"
    by (rule visits_fixed) simp
qed

theorem C3_throwing_payload_aborts_witness:
  "offsetAtUTC demoRuntime = (\<lambda>t. 0) \<and> offsetAtLocal demoRuntime = (\<lambda>t. 0)
   \<and> visits demoRuntime (19723 * msPerDay) (19726 * msPerDay)
       = Some (map (\<lambda>k. k * msPerDay) [19723, 19724, 19725, 19726])
   \<and> list_all (\<lambda>d. dayOk demoRuntime (isoDate demoRuntime d)) [19723, 19724, 19725]
   \<and> (\<exists>reports. loadDailyReports demoRuntime 19723 19725 = Some (Inr reports))
   \<and> \<not> dayOk demoRuntime (isoDate demoRuntime 19726)
   \<and> (\<exists>err. loadDailyReports demoRuntime 19723 19726 = Some (Inl err))
   \<and> \<not> (\<exists>reports. loadDailyReports demoRuntime 19723 19726 = Some (Inr reports))
   \<and> parseItems (parseJSON demoRuntime)
         (onDay ''2024-01-07T22:30:00'' (exampleTx ''VIP'' beerObject ''cash'' 8 0))
       = Fails TypeError
   \<and> (\<exists>err. loadDailyReports demoRuntime 19729 19729 = Some (Inl err))
   \<and> items (exampleTx ''Gold'' [] ''cash'' 5 0) = []
   \<and> parseItems demoParse (exampleTx ''Gold'' [] ''cash'' 5 0) = Lines []"
proof -
  note ok = demo_days_ok
  have off: "offsetAtUTC demoRuntime = (\<lambda>t. 0)" "offsetAtLocal demoRuntime = (\<lambda>t. 0)"
    by (simp_all add: demoRuntime_def)
  have bad: "\<not> dayOk demoRuntime (isoDate demoRuntime 19726)"
    by (simp add: dayOk_def daySales_def fails_def eval_demo)
  have days: "[19723..19726] = [19723, 19724, 19725, 19726]"
    by (simp add: upto_rec1)
  have v3: "visits demoRuntime (19723 * msPerDay) (19725 * msPerDay)
      = Some (map (\<lambda>k. k * msPerDay) [19723..19725])"
    using C3_throwing_payload_aborts [of demoRuntime 19723 19725 _ _ _ 0] demo_fixed
    by blast
  have v4: "visits demoRuntime (19723 * msPerDay) (19726 * msPerDay)
      = Some (map (\<lambda>k. k * msPerDay) [19723..19726])"
    using C3_throwing_payload_aborts [of demoRuntime 19723 19726 _ _ _ 0] demo_fixed
    by blast
  have v1: "visits demoRuntime (19729 * msPerDay) (19729 * msPerDay)
      = Some (map (\<lambda>k. k * msPerDay) [19729..19729])"
    using C3_throwing_payload_aborts [of demoRuntime 19729 19729 _ _ _ 0] demo_fixed
    by blast
  have good: "\<forall>d \<in> set (map (\<lambda>k. k * msPerDay) [19723..19725]).
      \<forall>t \<in> set (dayTransactions demoRuntime (dateStr demoRuntime d)).
        isRefund t = 0 \<longrightarrow> (\<forall>err. parseItems (parseJSON demoRuntime) t \<noteq> Fails err)"
    using demo_days_ok by (simp add: dayOk_iff dateStr_day demo_days)
  have "\<exists>reports. loadDailyReports demoRuntime 19723 19725 = Some (Inr reports)"
    using C3_throwing_payload_aborts [of demoRuntime 19723 19725] v3 good
    by blast
  moreover have thrown: "\<exists>d \<in> set (map (\<lambda>k. k * msPerDay) [19723..19726]).
      \<exists>t \<in> set (dayTransactions demoRuntime (dateStr demoRuntime d)).
        isRefund t = 0 \<and> (\<exists>err. parseItems (parseJSON demoRuntime) t = Fails err)"
    using bad by (simp add: dayOk_iff dateStr_day days)
  have "\<exists>err. loadDailyReports demoRuntime 19723 19726 = Some (Inl err)"
    using C3_throwing_payload_aborts
      [of demoRuntime 19723 19726 "map (\<lambda>k. k * msPerDay) [19723..19726]"] v4 thrown
    by blast
  moreover from this
  have "\<not> (\<exists>reports. loadDailyReports demoRuntime 19723 19726 = Some (Inr reports))"
    by auto
  moreover have obj: "parseItems (parseJSON demoRuntime)
         (onDay ''2024-01-07T22:30:00'' (exampleTx ''VIP'' beerObject ''cash'' 8 0))
       = Fails TypeError"
    by (simp add: eval_demo)
  moreover have "\<exists>err. loadDailyReports demoRuntime 19729 19729 = Some (Inl err)"
  proof -
    have "\<exists>d \<in> set (map (\<lambda>k. k * msPerDay) [19729..19729]).
      \<exists>t \<in> set (dayTransactions demoRuntime (dateStr demoRuntime d)).
        isRefund t = 0 \<and> (\<exists>err. parseItems (parseJSON demoRuntime) t = Fails err)"
      by (simp add: eval_demo)
    with v1 show ?thesis
      using C3_throwing_payload_aborts
        [of demoRuntime 19729 19729 "map (\<lambda>k. k * msPerDay) [19729..19729]"]
      by blast
  qed
  moreover have "items (exampleTx ''Gold'' [] ''cash'' 5 0) = []"
    by (simp add: exampleTx_def)
  moreover have "parseItems demoParse (exampleTx ''Gold'' [] ''cash'' 5 0) = Lines []"
    using C3_throwing_payload_aborts
      [of demoRuntime 0 0 "[]" "exampleTx ''Gold'' [] ''cash'' 5 0" demoParse]
    by (simp add: exampleTx_def)
  ultimately show ?thesis
    using ok bad off v4 days by simp
qed

text \<open>
  C3 as the specification states it fails on the range 2024-01-01 to 2024-01-04: the second
  sale of the last day has a payload that \<^verbatim>\<open>JSON.parse\<close> rejects, and the reports of the three
  well-formed days are lost with it.
\<close>

theorem C3_malformed_counterexample:
  "dayTransactions demoRuntime (isoDate demoRuntime 19726)
     = [onDay ''2024-01-04T21:05:00'' (exampleTx ''VIP'' beerTwo ''cash'' 16 0),
        onDay ''2024-01-04T21:05:00'' (exampleTx ''VIP'' truncated ''cash'' 8 0)]
   \<and> parseItems (parseJSON demoRuntime)
         (onDay ''2024-01-04T21:05:00'' (exampleTx ''VIP'' truncated ''cash'' 8 0))
       = Fails SyntaxError
   \<and> loadDailyReports demoRuntime 19723 19726 = Some (Inl SyntaxError)
   \<and> (case loadDailyReports demoRuntime 19723 19725 of
         Some (Inr reports) \<Rightarrow> map date reports | _ \<Rightarrow> [])
       = [''2024-01-03'', ''2024-01-02'', ''2024-01-01'']"
  by (simp add: eval_demo eval_report)







subsection \<open>Filtering\<close>

text \<open>
  C6. The filtered list is a subsequence of the input; a transaction is kept exactly
  when the membership filter is \<^verbatim>\<open>all\<close> or equals its membership type and the payment
  filter is \<^verbatim>\<open>all\<close> or equals its payment method; with both filters \<^verbatim>\<open>all\<close> the input
  is returned as it is.
\<close>

theorem C6_filter:
  "loadTransactions T fm fp
     = filter (\<lambda>t. (fm = ''all'' \<or> membershipType t = fm)
                 \<and> (fp = ''all'' \<or> paymentMethod t = fp)) T
   \<and> subseq (loadTransactions T fm fp) T
   \<and> loadTransactions T ''all'' ''all'' = T"
  by (simp add: loadTransactions_def Let_def)

subsection \<open>Export\<close>

text \<open>
  C8. The export of an empty sequence is the no-data toast and no table. The export of
  a non-empty sequence is a download whose text is the header, made of the field names
  of the first record, and one row for each record; a value is stringified, and a
  string that contains a comma is put between double quotes.
\<close>

theorem C8_export:
  "exportToCSV toStr s e [] fn = NoDataToast
   \<and> (data \<noteq> [] \<longrightarrow>
        (\<exists>rows. exportToCSV toStr s e data fn
                  = Download (fn @ ''_'' @ s @ ''_to_'' @ e @ ''.csv'')
                      (join '','' (map fst (hd data)) @ [CHR 0x0A] @ join [CHR 0x0A] rows)
               \<and> length rows = length data
               \<and> (\<forall>i < length data.
                     rows ! i = join '','' (map (\<lambda>kv. csvCell toStr (snd kv)) (data ! i)))))
   \<and> csvCell toStr (Str v) = (if CHR '','' \<in> set v then [CHR 0x22] @ v @ [CHR 0x22] else v)
   \<and> csvCell toStr (Other x) = toStr x"
proof -
  have "data \<noteq> [] \<Longrightarrow>
        exportToCSV toStr s e data fn
          = Download (fn @ ''_'' @ s @ ''_to_'' @ e @ ''.csv'')
              (join '','' (map fst (hd data)) @ [CHR 0x0A]
                 @ join [CHR 0x0A] (map (csvRow toStr) data))"
    by (cases data) (simp_all add: exportToCSV_def Let_def)
  moreover have "\<forall>i < length data.
      map (csvRow toStr) data ! i = join '','' (map (\<lambda>kv. csvCell toStr (snd kv)) (data ! i))"
    by (simp add: csvRow_def case_prod_unfold)
  ultimately have "data \<noteq> [] \<longrightarrow>
        (\<exists>rows. exportToCSV toStr s e data fn
                  = Download (fn @ ''_'' @ s @ ''_to_'' @ e @ ''.csv'')
                      (join '','' (map fst (hd data)) @ [CHR 0x0A] @ join [CHR 0x0A] rows)
               \<and> length rows = length data
               \<and> (\<forall>i < length data.
                     rows ! i = join '','' (map (\<lambda>kv. csvCell toStr (snd kv)) (data ! i))))"
    by (intro impI exI [of _ "map (csvRow toStr) data"]) simp
  then show ?thesis
    by (simp add: exportToCSV_def csvCell_def)
qed

theorem C8_export_witness:
  "[[(''id'', Str ''a,b''), (''finalAmount'', Other (25::nat))],
    [(''id'', Str ''c''), (''finalAmount'', Other 10)]] \<noteq> []
   \<and> exportToCSV (\<lambda>n::nat. if n = 25 then ''25'' else ''10'') ''2024-01-01'' ''2024-01-31''
       [[(''id'', Str ''a,b''), (''finalAmount'', Other 25)],
        [(''id'', Str ''c''), (''finalAmount'', Other 10)]]
       ''all_transactions''
     = Download ''all_transactions_2024-01-01_to_2024-01-31.csv''
         (''id,finalAmount'' @ [CHR 0x0A] @ [CHR 0x22] @ ''a,b'' @ [CHR 0x22] @ '',25''
            @ [CHR 0x0A] @ ''c,10'')"
  using C8_export
    [of "\<lambda>n::nat. if n = 25 then ''25'' else ''10''" "''2024-01-01''" "''2024-01-31''"
      "''all_transactions''"
      "[[(''id'', Str ''a,b''), (''finalAmount'', Other 25)],
        [(''id'', Str ''c''), (''finalAmount'', Other 10)]]"]
  by (simp add: exportToCSV_def csvRow_def csvCell_def)

end
